theory Spec2Isabelle
  imports Main
begin

section \<open>JavaScript values\<close>

text \<open>
  The values that reach the sheet: what a form field can hold (a string, a number,
  a boolean, null), what a missing property reads as (undefined), and objects.
  An object has a prototype and the list of its own enumerable properties, in the
  order in which \<^verbatim>\<open>Object.keys\<close>, \<^verbatim>\<open>Object.values\<close> and \<^verbatim>\<open>Object.entries\<close>
  enumerate them. The prototype is \<^verbatim>\<open>Object.prototype\<close>, as for every object literal,
  or null, or another object given by its own prototype and properties: the sheet uses
  objects as dictionaries keyed by names that the user types, and an assignment to the
  key \<^verbatim>\<open>__proto__\<close> replaces the prototype.
  A string is a list of code units; the model keeps the units below 256.
  Numbers are never computed with by the sheet, so an integer payload stands for them.
  The sheet is an ES module: its code runs in strict mode.
\<close>

datatype jsval =
    JUndefined
  | JNull
  | JBool bool
  | JNum int
  | JStr string
  | JObj jsproto "(string \<times> jsval) list"
and jsproto =
    ObjectPrototype
  | NullPrototype
  | Inherits jsproto "(string \<times> jsval) list"

type_synonym jsobj = "(string \<times> jsval) list"

text \<open>An object of the data that forms and documents hold: an object literal.\<close>

abbreviation JPlain :: "jsobj \<Rightarrow> jsval" where
  "JPlain props \<equiv> JObj ObjectPrototype props"

text \<open>
  An object that the sheet builds by assignments: the accumulator \<^verbatim>\<open>{}\<close> of a
  \<^verbatim>\<open>reduce\<close> and the object literal of the patch.
\<close>

record jsdict =
  proto :: jsproto
  own :: jsobj

definition toValue :: "jsdict \<Rightarrow> jsval" where
  "toValue d = JObj (proto d) (own d)"

definition emptyObject :: jsdict where
  "emptyObject = \<lparr>proto = ObjectPrototype, own = []\<rparr>"

datatype js_error = TypeError | Error string

text \<open>Sequencing of a computation that may throw: the first exception ends it.\<close>

definition andThen :: "js_error + 'a \<Rightarrow> ('a \<Rightarrow> js_error + 'b) \<Rightarrow> js_error + 'b" where
  "andThen m f = (case m of Inl e \<Rightarrow> Inl e | Inr x \<Rightarrow> f x)"

text \<open>Whether a list of own properties has the key.\<close>

definition ownKey :: "jsobj \<Rightarrow> string \<Rightarrow> bool" where
  "ownKey props k = (k \<in> set (map fst props))"

text \<open>
  Creating or updating an own data property: an existing property keeps its place, a
  new one is added last. No step of the sheet enumerates an object it has built this
  way, and the theorems read such objects by key.
\<close>

fun putOwn :: "jsobj \<Rightarrow> string \<Rightarrow> jsval \<Rightarrow> jsobj" where
  "putOwn [] k v = [(k, v)]"
| "putOwn ((k', v') # props) k v =
     (if k' = k then (k, v) # props else (k', v') # putOwn props k v)"

text \<open>
  Whether the lookup of a name that \<^verbatim>\<open>Object.prototype\<close> defines (the method
  \<^verbatim>\<open>hasOwnProperty\<close>, the accessor \<^verbatim>\<open>__proto__\<close>) arrives there when it starts at
  the given prototype: no object on the way has an own property of that name, and the
  chain does not end in null.
\<close>

fun inheritsBuiltin :: "jsproto \<Rightarrow> string \<Rightarrow> bool" where
  "inheritsBuiltin ObjectPrototype k = True"
| "inheritsBuiltin NullPrototype k = False"
| "inheritsBuiltin (Inherits pr props) k = (\<not> ownKey props k \<and> inheritsBuiltin pr k)"

text \<open>
  \<^verbatim>\<open>obj[k] = v\<close> on an object the sheet has built. An own property is updated. Without
  one, the key \<^verbatim>\<open>__proto__\<close> that resolves to the accessor of \<^verbatim>\<open>Object.prototype\<close>
  calls its setter: an object or null becomes the prototype of \<^verbatim>\<open>obj\<close>, any other
  value is ignored, and no property is created. Every other assignment creates an own
  property, since all inherited data properties are writable. The setter's refusal of
  a cyclic prototype does not arise: the object assigned to is new and no value holds it.
\<close>

definition set_prop :: "jsdict \<Rightarrow> string \<Rightarrow> jsval \<Rightarrow> jsdict" where
  "set_prop obj k v =
     (if k = ''__proto__'' \<and> \<not> ownKey (own obj) k \<and> inheritsBuiltin (proto obj) k
      then (case v of
              JObj pr props \<Rightarrow> obj\<lparr>proto := Inherits pr props\<rparr>
            | JNull \<Rightarrow> obj\<lparr>proto := NullPrototype\<rparr>
            | _ \<Rightarrow> obj)
      else obj\<lparr>own := putOwn (own obj) k v\<rparr>)"

text \<open>
  \<^verbatim>\<open>obj.hasOwnProperty(k)\<close> on an object the sheet has built: the property
  \<^verbatim>\<open>hasOwnProperty\<close> is looked up on \<^verbatim>\<open>obj\<close> and called. When \<^verbatim>\<open>obj\<close> or an
  object on its prototype chain has an own property of that name, or the chain ends in
  null, what is found is not a function and the call throws a TypeError.
\<close>

definition hasOwnProperty :: "jsdict \<Rightarrow> string \<Rightarrow> js_error + bool" where
  "hasOwnProperty obj k =
     (if \<not> ownKey (own obj) ''hasOwnProperty'' \<and> inheritsBuiltin (proto obj) ''hasOwnProperty''
      then Inr (ownKey (own obj) k)
      else Inl TypeError)"

text \<open>
  \<^verbatim>\<open>x[k]\<close> and \<^verbatim>\<open>x.k\<close> for the property names the sheet reads (data, skills,
  equipment, weapons, abilities, name), none of which \<^verbatim>\<open>Object.prototype\<close> or the
  prototype of a primitive defines: reading from undefined or null throws a TypeError,
  reading from a primitive gives undefined, and reading from an object gives its own
  property, else the property of the nearest object on its prototype chain that has
  one, else undefined.
\<close>

fun inherited :: "jsproto \<Rightarrow> string \<Rightarrow> jsval" where
  "inherited ObjectPrototype k = JUndefined"
| "inherited NullPrototype k = JUndefined"
| "inherited (Inherits pr props) k =
     (case map_of props k of None \<Rightarrow> inherited pr k | Some v \<Rightarrow> v)"

fun js_get :: "jsval \<Rightarrow> string \<Rightarrow> js_error + jsval" where
  "js_get JUndefined k = Inl TypeError"
| "js_get JNull k = Inl TypeError"
| "js_get (JObj pr props) k = Inr (case map_of props k of None \<Rightarrow> inherited pr k | Some v \<Rightarrow> v)"
| "js_get (JBool b) k = Inr JUndefined"
| "js_get (JNum n) k = Inr JUndefined"
| "js_get (JStr s) k = Inr JUndefined"

text \<open>A chain of member accesses \<^verbatim>\<open>x.a.b\<close>.\<close>

fun path_get :: "jsval \<Rightarrow> string list \<Rightarrow> js_error + jsval" where
  "path_get x [] = Inr x"
| "path_get x (k # ks) = andThen (js_get x k) (\<lambda>y. path_get y ks)"

fun truthy :: "jsval \<Rightarrow> bool" where
  "truthy JUndefined = False"
| "truthy JNull = False"
| "truthy (JBool b) = b"
| "truthy (JNum n) = (n \<noteq> 0)"
| "truthy (JStr s) = (s \<noteq> [])"
| "truthy (JObj pr props) = True"

text \<open>\<^verbatim>\<open>a || b\<close>.\<close>

definition js_or :: "jsval \<Rightarrow> jsval \<Rightarrow> jsval" where
  "js_or a b = (if truthy a then a else b)"

text \<open>
  \<^verbatim>\<open>Object.values(x)\<close>: the values of the own properties of an object, the one-unit
  strings of a string, nothing for a number or a boolean, a TypeError for undefined
  and null.
\<close>

fun object_values :: "jsval \<Rightarrow> js_error + jsval list" where
  "object_values JUndefined = Inl TypeError"
| "object_values JNull = Inl TypeError"
| "object_values (JObj pr props) = Inr (map snd props)"
| "object_values (JStr s) = Inr (map (\<lambda>c. JStr [c]) s)"
| "object_values (JBool b) = Inr []"
| "object_values (JNum n) = Inr []"

text \<open>Decimal numerals, for the index keys of a string.\<close>

function show_nat :: "nat \<Rightarrow> string" where
  "show_nat n =
     (if n < 10 then [char_of (48 + n)] else show_nat (n div 10) @ [char_of (48 + n mod 10)])"
  by pat_completeness auto
termination
  by (relation "measure id") auto

text \<open>\<^verbatim>\<open>Object.keys(x)\<close>: the names of the own properties.\<close>

fun object_keys :: "jsval \<Rightarrow> js_error + string list" where
  "object_keys JUndefined = Inl TypeError"
| "object_keys JNull = Inl TypeError"
| "object_keys (JObj pr props) = Inr (map fst props)"
| "object_keys (JStr s) = Inr (map show_nat [0..<length s])"
| "object_keys (JBool b) = Inr []"
| "object_keys (JNum n) = Inr []"

text \<open>
  \<^verbatim>\<open>String.prototype.trim\<close>: white space and line terminators are removed at both
  ends. Among the code units below 256 these are TAB, LF, VT, FF, CR, SPACE and the
  no-break space.
\<close>

definition is_space :: "char \<Rightarrow> bool" where
  "is_space c = (c \<in> set [CHR 0x09, CHR 0x0A, CHR 0x0B, CHR 0x0C, CHR 0x0D, CHR 0x20, CHR 0xA0])"

definition trim :: "string \<Rightarrow> string" where
  "trim s = rev (dropWhile is_space (rev (dropWhile is_space s)))"

text \<open>\<^verbatim>\<open>s.startsWith(p)\<close>.\<close>

definition startsWith :: "string \<Rightarrow> string \<Rightarrow> bool" where
  "startsWith s p = (take (length p) s = p)"

text \<open>\<^verbatim>\<open>xs.reduce(f, init)\<close> for a callback that may throw.\<close>

fun reduce :: "('b \<Rightarrow> 'a \<Rightarrow> js_error + 'b) \<Rightarrow> 'a list \<Rightarrow> 'b \<Rightarrow> js_error + 'b" where
  "reduce f [] acc = Inr acc"
| "reduce f (x # xs) acc = (case f acc x of Inl e \<Rightarrow> Inl e | Inr acc' \<Rightarrow> reduce f xs acc')"

section \<open>The character document and the submitted form\<close>

text \<open>
  \<^verbatim>\<open>this.object\<close>: the actor document. The sheet reads its identity
  \<^verbatim>\<open>this.object._id\<close> and, under \<^verbatim>\<open>this.object.data.data\<close>, the three persisted
  collections.
\<close>

record actor =
  actor_id :: jsval
  actor_data :: jsval

datatype collection = Skills | Weapons | Abilities

text \<open>
  The row-indexed sub-object of a collection in the expanded form data:
  \<^verbatim>\<open>fd.data.skills || {}\<close>, \<^verbatim>\<open>(fd.data.equipment || {}).weapons || {}\<close> and
  \<^verbatim>\<open>fd.data.abilities || {}\<close>.
\<close>

fun formCollection :: "collection \<Rightarrow> jsval \<Rightarrow> js_error + jsval" where
  "formCollection Skills fd =
     andThen (path_get fd [''data'', ''skills'']) (\<lambda>s. Inr (js_or s (JPlain [])))"
| "formCollection Weapons fd =
     andThen (path_get fd [''data'', ''equipment'']) (\<lambda>e.
     andThen (js_get (js_or e (JPlain [])) ''weapons'') (\<lambda>w. Inr (js_or w (JPlain []))))"
| "formCollection Abilities fd =
     andThen (path_get fd [''data'', ''abilities'']) (\<lambda>a. Inr (js_or a (JPlain [])))"

text \<open>
  A persisted collection: \<^verbatim>\<open>this.object.data.data.skills\<close>,
  \<^verbatim>\<open>this.object.data.data.equipment.weapons\<close> and
  \<^verbatim>\<open>this.object.data.data.abilities\<close>; and its keys, \<^verbatim>\<open>Object.keys\<close> of it.
\<close>

fun persistedCollection :: "collection \<Rightarrow> actor \<Rightarrow> js_error + jsval" where
  "persistedCollection Skills object = path_get (actor_data object) [''skills'']"
| "persistedCollection Weapons object = path_get (actor_data object) [''equipment'', ''weapons'']"
| "persistedCollection Abilities object = path_get (actor_data object) [''abilities'']"

definition persistedKeys :: "collection \<Rightarrow> actor \<Rightarrow> js_error + string list" where
  "persistedKeys c object = andThen (persistedCollection c object) object_keys"

text \<open>The key under which the patch carries a collection.\<close>

fun patchKey :: "collection \<Rightarrow> string" where
  "patchKey Skills = ''data.skills''"
| "patchKey Weapons = ''data.equipment.weapons''"
| "patchKey Abilities = ''data.abilities''"

text \<open>
  \<^verbatim>\<open>function (obj, v) { const name = v["name"].trim(); obj[name] = v; return obj; }\<close>:
  \<^verbatim>\<open>v["name"]\<close> throws on undefined and null, and \<^verbatim>\<open>.trim()\<close> throws on anything
  that is not a string.
\<close>

definition formDataReduceFunction :: "jsdict \<Rightarrow> jsval \<Rightarrow> js_error + jsdict" where
  "formDataReduceFunction obj v =
     andThen (js_get v ''name'') (\<lambda>n.
       case n of JStr s \<Rightarrow> Inr (set_prop obj (trim s) v) | _ \<Rightarrow> Inl TypeError)"

text \<open>
  The key a row is filed under: its trimmed name, when \<^verbatim>\<open>v["name"]\<close> is a string.
\<close>

definition entityKey :: "jsval \<Rightarrow> string option" where
  "entityKey v = (case js_get v ''name'' of Inr (JStr s) \<Rightarrow> Some (trim s) | _ \<Rightarrow> None)"

text \<open>\<^verbatim>\<open>Object.values(formSkills).reduce(formDataReduceFunction, {})\<close>.\<close>

definition keyedCollection :: "jsval \<Rightarrow> js_error + jsdict" where
  "keyedCollection formRows =
     andThen (object_values formRows) (\<lambda>rows. reduce formDataReduceFunction rows emptyObject)"

text \<open>
  The loop \<^verbatim>\<open>for (let sk of keys) { if (sk && !skills.hasOwnProperty(sk)) skills[`-=${sk}`] = null; }\<close>
  under the comment ``Remove skills which are no longer used'': the map that is tested
  is the map that is extended, and the test is not made for an empty key.
\<close>

fun removeUnused :: "string list \<Rightarrow> jsdict \<Rightarrow> js_error + jsdict" where
  "removeUnused [] skills = Inr skills"
| "removeUnused (sk # sks) skills =
     (if sk = [] then removeUnused sks skills
      else andThen (hasOwnProperty skills sk) (\<lambda>present.
        removeUnused sks (if \<not> present then set_prop skills (''-='' @ sk) JNull else skills)))"

text \<open>
  The own properties that the loop leaves behind when no call of
  \<^verbatim>\<open>hasOwnProperty\<close> throws.
\<close>

fun addSentinels :: "string list \<Rightarrow> jsobj \<Rightarrow> jsobj" where
  "addSentinels [] props = props"
| "addSentinels (sk # sks) props =
     addSentinels sks
       (if sk \<noteq> [] \<and> \<not> ownKey props sk then putOwn props (''-='' @ sk) JNull else props)"

text \<open>
  What \<^verbatim>\<open>_updateObject\<close> computes for one collection: the keyed map of the submitted
  rows, extended by the loop over the persisted keys.
\<close>

definition mergedCollection :: "collection \<Rightarrow> jsval \<Rightarrow> actor \<Rightarrow> js_error + jsdict" where
  "mergedCollection c fd object =
     andThen (formCollection c fd) (\<lambda>formRows.
     andThen (keyedCollection formRows) (\<lambda>keyed.
     andThen (persistedKeys c object) (\<lambda>ks. removeUnused ks keyed)))"

text \<open>The filter of the re-combination: a raw key is dropped when it starts with one of the
  three collection paths.\<close>

definition managed :: "string \<Rightarrow> bool" where
  "managed k = (startsWith k ''data.skills'' \<or> startsWith k ''data.equipment.weapons''
     \<or> startsWith k ''data.abilities'')"

text \<open>
  ``Re-combine formData'': the entries of the raw submission that pass the filter are
  assigned, in order, into the object literal that holds the identity and the three
  finished collections.
\<close>

definition recombine :: "jsval \<Rightarrow> jsdict \<Rightarrow> jsdict \<Rightarrow> jsdict \<Rightarrow> jsobj \<Rightarrow> jsdict" where
  "recombine oid skills weapons abilities formData =
     foldl (\<lambda>obj e. set_prop obj (fst e) (snd e))
       \<lparr>proto = ObjectPrototype,
        own = [(''_id'', oid), (''data.skills'', toValue skills),
               (''data.equipment.weapons'', toValue weapons),
               (''data.abilities'', toValue abilities)]\<rparr>
       (filter (\<lambda>e. \<not> managed (fst e)) formData)"

text \<open>
  \<^verbatim>\<open>_updateObject(event, formData)\<close>. The raw submission is given by its entries,
  \<^verbatim>\<open>Object.entries(formData)\<close>. The host function \<^verbatim>\<open>expandObject\<close> is a parameter.
  The result is the patch handed to \<^verbatim>\<open>this.object.update\<close>, or the exception thrown
  before that call.
\<close>

definition updateObject :: "(jsobj \<Rightarrow> jsval) \<Rightarrow> actor \<Rightarrow> jsobj \<Rightarrow> js_error + jsdict" where
  "updateObject expand object formData =
     (let fd = expand formData in
      andThen (formCollection Skills fd) (\<lambda>formSkills.
      andThen (formCollection Weapons fd) (\<lambda>formWeapons.
      andThen (formCollection Abilities fd) (\<lambda>formAbilities.
      andThen (keyedCollection formSkills) (\<lambda>skills.
      andThen (keyedCollection formWeapons) (\<lambda>weapons.
      andThen (keyedCollection formAbilities) (\<lambda>abilities.
      andThen (persistedKeys Skills object) (\<lambda>sks.
      andThen (removeUnused sks skills) (\<lambda>skills'.
      andThen (persistedKeys Weapons object) (\<lambda>wps.
      andThen (removeUnused wps weapons) (\<lambda>weapons'.
      andThen (persistedKeys Abilities object) (\<lambda>abs.
      andThen (removeUnused abs abilities) (\<lambda>abilities'.
      Inr (recombine (actor_id object) skills' weapons' abilities' formData))))))))))))))"

text \<open>
  The claims speak of the raw dotted paths that belong to a managed namespace: the path
  of a collection, or a path below it.
\<close>

definition inNamespace :: "string \<Rightarrow> bool" where
  "inNamespace k =
     (\<exists>c\<in>{Skills, Weapons, Abilities}. k = patchKey c \<or> startsWith k (patchKey c @ ''.''))"

text \<open>
  Modelled from the spec: \<^verbatim>\<open>expandObject\<close>, the host's Form Flattener/Expander, is
  not part of the sheet's source. It ``converts a flat mapping of dotted path strings
  to values into a nested structure'': every key is split at its dots and the value is
  stored along that path, creating the objects on the way. The theorems below hold for
  any expander; this one supplies concrete submissions.
\<close>

fun splitOn :: "char \<Rightarrow> string \<Rightarrow> string list" where
  "splitOn d [] = [[]]"
| "splitOn d (c # cs) =
     (if c = d then [] # splitOn d cs
      else (case splitOn d cs of [] \<Rightarrow> [[c]] | p # ps \<Rightarrow> (c # p) # ps))"

fun setProperty :: "jsval \<Rightarrow> string list \<Rightarrow> jsval \<Rightarrow> jsval" where
  "setProperty target [] v = v"
| "setProperty (JObj pr props) (k # ks) v =
     toValue (set_prop \<lparr>proto = pr, own = props\<rparr> k
       (setProperty (case map_of props k of None \<Rightarrow> JPlain [] | Some x \<Rightarrow> x) ks v))"
| "setProperty target (k # ks) v = target"

definition expandObject :: "jsobj \<Rightarrow> jsval" where
  "expandObject formData =
     foldl (\<lambda>expanded e. setProperty expanded (splitOn CHR ''.'' (fst e)) (snd e)) (JPlain []) formData"

section \<open>The sheet's markup\<close>

text \<open>
  The part of the DOM the handlers read and write. An element has its tag, its class
  list, its \<^verbatim>\<open>dataset.action\<close> (absent: undefined), the \<^verbatim>\<open>name\<close> and the
  \<^verbatim>\<open>value\<close> of a form field, and its child elements; a \<^verbatim>\<open>template\<close> element
  also has the children of its \<^verbatim>\<open>content\<close> fragment, which are not descendants of
  the element. An element of the page is addressed by the child indices that lead to
  it from the root element of the document.
\<close>

datatype element =
  Element (tag: string) (classes: "string list") (action: "string option")
    (fname: string) (fvalue: string) (children: "element list") (content: "element list")

fun node_at :: "element \<Rightarrow> nat list \<Rightarrow> element option" where
  "node_at e [] = Some e"
| "node_at e (i # p) = (if i < length (children e) then node_at (children e ! i) p else None)"

fun modify_at :: "nat list \<Rightarrow> (element \<Rightarrow> element) \<Rightarrow> element \<Rightarrow> element" where
  "modify_at [] f e = f e"
| "modify_at (i # p) f e =
     (if i < length (children e)
      then Element (tag e) (classes e) (action e) (fname e) (fvalue e)
             ((children e)[i := modify_at p f (children e ! i)]) (content e)
      else e)"

text \<open>
  \<^verbatim>\<open>el.closest(selector)\<close>: the element itself or its nearest ancestor that matches,
  null (\<open>None\<close>) when there is none. The result is the address of the match.
\<close>

fun closest :: "(element \<Rightarrow> bool) \<Rightarrow> element \<Rightarrow> nat list \<Rightarrow> nat list option" where
  "closest matches e [] = (if matches e then Some [] else None)"
| "closest matches e (i # p) =
     (case (if i < length (children e) then closest matches (children e ! i) p else None) of
        Some q \<Rightarrow> Some (i # q)
      | None \<Rightarrow> if matches e then Some [] else None)"

text \<open>
  \<^verbatim>\<open>el.getElementsByTagName(t)[0]\<close>: the first descendant with the tag in document
  order, undefined (\<open>None\<close>) when there is none. The result is its address below
  \<open>el\<close>.
\<close>

fun firstByTagName :: "string \<Rightarrow> element \<Rightarrow> nat list option"
  and firstAmong :: "string \<Rightarrow> element list \<Rightarrow> nat \<Rightarrow> nat list option" where
  "firstByTagName t (Element tg cl ac fn fv ch co) = firstAmong t ch 0"
| "firstAmong t [] i = None"
| "firstAmong t (c # cs) i =
     (if tag c = t then Some [i]
      else (case firstByTagName t c of
              Some p \<Rightarrow> Some (i # p)
            | None \<Rightarrow> firstAmong t cs (Suc i)))"

text \<open>
  The sheet as the click handlers see it: the page, and how many times
  \<^verbatim>\<open>this._onSubmit\<close> has been called. A handler returns the sheet it leaves behind
  and the exception it ended with, if any.
\<close>

record sheet =
  page :: element
  submits :: nat

text \<open>\<^verbatim>\<open>body.appendChild(newRow)\<close> for a document fragment: its children are added last.\<close>

definition appendChild :: "element list \<Rightarrow> element \<Rightarrow> element" where
  "appendChild fragment body =
     Element (tag body) (classes body) (action body) (fname body) (fvalue body)
       (children body @ fragment) (content body)"

text \<open>\<^verbatim>\<open>parent.removeChild(row)\<close>, the row being the child number \<open>i\<close>.\<close>

definition removeChild :: "nat \<Rightarrow> element \<Rightarrow> element" where
  "removeChild i parent =
     Element (tag parent) (classes parent) (action parent) (fname parent) (fvalue parent)
       (take i (children parent) @ drop (Suc i) (children parent)) (content parent)"

text \<open>
  The handler that \<^verbatim>\<open>onClickControlGenerator(control)\<close> returns, run on a click whose
  \<^verbatim>\<open>event.currentTarget\<close> is the element at address \<open>a\<close>. A null table or row
  and an undefined table body throw a TypeError where the handler dereferences them;
  the row's \<^verbatim>\<open>parentElement\<close> is null for the root element. The call
  \<^verbatim>\<open>await this._onSubmit(event)\<close> is counted; what the host does in it is not part
  of the handler. Tags are kept in lower case. A click has a target: an address that
  leads to no element is ended with a TypeError only to make the function total.
\<close>

definition onClickControl :: "string \<Rightarrow> sheet \<Rightarrow> nat list \<Rightarrow> sheet \<times> js_error option" where
  "onClickControl control sh a =
     (case node_at (page sh) a of
        None \<Rightarrow> (sh, Some TypeError)
      | Some target \<Rightarrow>
          if action target = Some ''create'' then
            (case closest (\<lambda>e. tag e = ''table'') (page sh) a of
               None \<Rightarrow> (sh, Some TypeError)
             | Some t \<Rightarrow>
                 (case node_at (page sh) t of
                    None \<Rightarrow> (sh, Some TypeError)
                  | Some table \<Rightarrow>
                      (case firstByTagName ''template'' table of
                         None \<Rightarrow>
                           (sh, Some (Error (''No row template found in '' @ control @ '' table'')))
                       | Some tp \<Rightarrow>
                           (case (node_at table tp, firstByTagName ''tbody'' table) of
                              (Some template, Some b) \<Rightarrow>
                                (sh\<lparr>page := modify_at (t @ b) (appendChild (content template)) (page sh)\<rparr>,
                                 None)
                            | _ \<Rightarrow> (sh, Some TypeError)))))
          else if action target = Some ''delete'' then
            (case closest (\<lambda>e. control \<in> set (classes e)) (page sh) a of
               None \<Rightarrow> (sh, Some TypeError)
             | Some r \<Rightarrow>
                 if r = [] then (sh, Some TypeError)
                 else (sh\<lparr>page := modify_at (butlast r) (removeChild (last r)) (page sh),
                          submits := Suc (submits sh)\<rparr>, None))
          else (sh, None))"

text \<open>
  The three blur handlers, run on a blur whose \<^verbatim>\<open>event.currentTarget\<close> is the
  element at address \<open>a\<close>. Each statement
  \<^verbatim>\<open>row.children[i].children[j].name = `<path>.${input.value}.<role>`\<close> throws a
  TypeError when the row is null or has no such cell or field; the statements before it
  have taken effect by then. The statements of a handler are listed as the cell, the
  field and the new name, in the order of the source.
\<close>

definition setName :: "string \<Rightarrow> element \<Rightarrow> element" where
  "setName n e = Element (tag e) (classes e) (action e) n (fvalue e) (children e) (content e)"

fun assignNames :: "nat list \<Rightarrow> (nat \<times> nat \<times> string) list \<Rightarrow> element \<Rightarrow> element \<times> js_error option" where
  "assignNames row [] pg = (pg, None)"
| "assignNames row ((i, j, n) # rest) pg =
     (case node_at pg (row @ [i, j]) of
        None \<Rightarrow> (pg, Some TypeError)
      | Some field \<Rightarrow> assignNames row rest (modify_at (row @ [i, j]) (setName n) pg))"

definition onNameChange ::
    "string \<Rightarrow> (string \<Rightarrow> (nat \<times> nat \<times> string) list) \<Rightarrow> element \<Rightarrow> nat list \<Rightarrow> element \<times> js_error option" where
  "onNameChange marker statements pg a =
     (case node_at pg a of
        None \<Rightarrow> (pg, Some TypeError)
      | Some input \<Rightarrow>
          (case closest (\<lambda>e. marker \<in> set (classes e)) pg a of
             None \<Rightarrow> (pg, Some TypeError)
           | Some row \<Rightarrow> assignNames row (statements (fvalue input)) pg))"

definition abilityNames :: "string \<Rightarrow> (nat \<times> nat \<times> string) list" where
  "abilityNames v =
     [(0, 0, ''data.abilities.'' @ v @ ''.name''),
      (1, 0, ''data.abilities.'' @ v @ ''.cost.amount''),
      (1, 1, ''data.abilities.'' @ v @ ''.cost.pool''),
      (2, 0, ''data.abilities.'' @ v @ ''.description'')]"

definition skillNames :: "string \<Rightarrow> (nat \<times> nat \<times> string) list" where
  "skillNames v =
     [(0, 0, ''data.skills.'' @ v @ ''.name''),
      (1, 0, ''data.skills.'' @ v @ ''.stat''),
      (2, 0, ''data.skills.'' @ v @ ''.inability''),
      (3, 0, ''data.skills.'' @ v @ ''.trained''),
      (4, 0, ''data.skills.'' @ v @ ''.specialized'')]"

definition weaponNames :: "string \<Rightarrow> (nat \<times> nat \<times> string) list" where
  "weaponNames v =
     [(0, 0, ''data.equipment.weapons.'' @ v @ ''.name''),
      (1, 0, ''data.equipment.weapons.'' @ v @ ''.weightClass''),
      (1, 1, ''data.equipment.weapons.'' @ v @ ''.weaponType''),
      (2, 0, ''data.equipment.weapons.'' @ v @ ''.damage''),
      (3, 0, ''data.equipment.weapons.'' @ v @ ''.range''),
      (4, 0, ''data.equipment.weapons.'' @ v @ ''.notes'')]"

definition onAbilityNameChange :: "element \<Rightarrow> nat list \<Rightarrow> element \<times> js_error option" where
  "onAbilityNameChange = onNameChange ''ability'' abilityNames"

definition onSkillNameChange :: "element \<Rightarrow> nat list \<Rightarrow> element \<times> js_error option" where
  "onSkillNameChange = onNameChange ''skill'' skillNames"

definition onWeaponNameChange :: "element \<Rightarrow> nat list \<Rightarrow> element \<times> js_error option" where
  "onWeaponNameChange = onNameChange ''weapon'' weaponNames"

section \<open>Sample documents and submissions\<close>

text \<open>
  A character with two skills and a weapon, and a submission in which the skill
  Climbing has been renamed to Climb.
\<close>

definition sampleActor :: actor where
  "sampleActor = \<lparr>actor_id = JStr ''a1'', actor_data = JPlain
     [(''skills'', JPlain
        [(''Climbing'', JPlain [(''name'', JStr ''Climbing''), (''stat'', JStr ''Speed'')]),
         (''Running'', JPlain [(''name'', JStr ''Running''), (''stat'', JStr ''Might'')])]),
      (''equipment'', JPlain [(''weapons'', JPlain [(''Sword'', JPlain [(''name'', JStr ''Sword'')])])]),
      (''abilities'', JPlain [])]\<rparr>"

definition renameSubmission :: jsobj where
  "renameSubmission =
     [(''name'', JStr ''Thorn''),
      (''data.skills.Climb.name'', JStr ''Climb''),
      (''data.skills.Climb.stat'', JStr ''Speed''),
      (''data.skills.Running.name'', JStr ''Running''),
      (''data.skills.Running.stat'', JStr ''Might''),
      (''data.equipment.weapons.Sword.name'', JStr ''Sword'')]"

definition renamePatch :: jsdict where
  "renamePatch = \<lparr>proto = ObjectPrototype, own =
     [(''_id'', JStr ''a1''),
      (''data.skills'', JPlain
        [(''Climb'', JPlain [(''name'', JStr ''Climb''), (''stat'', JStr ''Speed'')]),
         (''Running'', JPlain [(''name'', JStr ''Running''), (''stat'', JStr ''Might'')]),
         (''-=Climbing'', JNull)]),
      (''data.equipment.weapons'', JPlain [(''Sword'', JPlain [(''name'', JStr ''Sword'')])]),
      (''data.abilities'', JPlain []),
      (''name'', JStr ''Thorn'')]\<rparr>"

text \<open>The rows of the renaming submission, keyed by name.\<close>

definition renameKeyed :: jsobj where
  "renameKeyed =
     [(''Climb'', JPlain [(''name'', JStr ''Climb''), (''stat'', JStr ''Speed'')]),
      (''Running'', JPlain [(''name'', JStr ''Running''), (''stat'', JStr ''Might'')])]"

text \<open>
  The keyed skills of the renaming submission as the reduce leaves them, and as the
  loop over the persisted keys leaves them.
\<close>

definition renameKeyedObject :: jsdict where
  "renameKeyedObject = \<lparr>proto = ObjectPrototype, own = renameKeyed\<rparr>"

definition renameMerged :: jsdict where
  "renameMerged = \<lparr>proto = ObjectPrototype, own =
     [(''Climb'', JPlain [(''name'', JStr ''Climb''), (''stat'', JStr ''Speed'')]),
      (''Running'', JPlain [(''name'', JStr ''Running''), (''stat'', JStr ''Might'')]),
      (''-=Climbing'', JNull)]\<rparr>"

text \<open>
  A character that has a skill filed under the empty key next to Climbing, and a
  submission that carries the row of Climbing only.
\<close>

definition blankKeyActor :: actor where
  "blankKeyActor = \<lparr>actor_id = JStr ''a2'', actor_data = JPlain
     [(''skills'', JPlain
        [('''', JPlain [(''name'', JStr ''''), (''stat'', JStr ''Might'')]),
         (''Climbing'', JPlain [(''name'', JStr ''Climbing''), (''stat'', JStr ''Speed'')])]),
      (''equipment'', JPlain [(''weapons'', JPlain [])]),
      (''abilities'', JPlain [])]\<rparr>"

definition climbingSubmission :: jsobj where
  "climbingSubmission =
     [(''data.skills.Climbing.name'', JStr ''Climbing''),
      (''data.skills.Climbing.stat'', JStr ''Speed'')]"

text \<open>
  Submissions with two rows whose names trim to the same key, with a row whose name is
  blank, and with a row that has no name field.
\<close>

definition duplicateSubmission :: jsobj where
  "duplicateSubmission =
     [(''data.skills.a.name'', JStr ''Jumping''),
      (''data.skills.a.stat'', JStr ''Might''),
      (''data.skills.b.name'', JStr '' Jumping ''),
      (''data.skills.b.stat'', JStr ''Speed'')]"

definition blankNameSubmission :: jsobj where
  "blankNameSubmission =
     [(''data.skills.Climbing.name'', JStr ''Climbing''),
      (''data.skills.Climbing.stat'', JStr ''Speed''),
      (''data.skills.new.name'', JStr ''  ''),
      (''data.skills.new.stat'', JStr ''Intellect'')]"

definition namelessSubmission :: jsobj where
  "namelessSubmission =
     [(''data.skills.Climbing.name'', JStr ''Climbing''),
      (''data.skills.x.stat'', JStr ''Speed'')]"

text \<open>
  The skill rows of the submission with the blank name, the map they are keyed into,
  and the patch that the sample character gets from that submission.
\<close>

definition blankNameRows :: jsobj where
  "blankNameRows =
     [(''Climbing'', JPlain [(''name'', JStr ''Climbing''), (''stat'', JStr ''Speed'')]),
      (''new'', JPlain [(''name'', JStr ''  ''), (''stat'', JStr ''Intellect'')])]"

definition blankNameKeyed :: jsdict where
  "blankNameKeyed = \<lparr>proto = ObjectPrototype, own =
     [(''Climbing'', JPlain [(''name'', JStr ''Climbing''), (''stat'', JStr ''Speed'')]),
      ([], JPlain [(''name'', JStr ''  ''), (''stat'', JStr ''Intellect'')])]\<rparr>"

definition blankNameMerged :: jsdict where
  "blankNameMerged = \<lparr>proto = ObjectPrototype, own =
     [(''Climbing'', JPlain [(''name'', JStr ''Climbing''), (''stat'', JStr ''Speed'')]),
      ([], JPlain [(''name'', JStr ''  ''), (''stat'', JStr ''Intellect'')]),
      (''-=Running'', JNull)]\<rparr>"

definition blankNamePatch :: jsdict where
  "blankNamePatch = \<lparr>proto = ObjectPrototype, own =
     [(''_id'', JStr ''a1''),
      (''data.skills'', JPlain
        [(''Climbing'', JPlain [(''name'', JStr ''Climbing''), (''stat'', JStr ''Speed'')]),
         ([], JPlain [(''name'', JStr ''  ''), (''stat'', JStr ''Intellect'')]),
         (''-=Running'', JNull)]),
      (''data.equipment.weapons'', JPlain [(''-=Sword'', JNull)]),
      (''data.abilities'', JPlain [])]\<rparr>"

text \<open>
  A submission in which the user has named two skills \<open>" __proto__"\<close> and
  \<open>"__proto__ "\<close>: the names differ as typed and trim to the same name.
\<close>

definition protoNameSubmission :: jsobj where
  "protoNameSubmission =
     [(''data.skills.Climbing.name'', JStr ''Climbing''),
      (''data.skills. __proto__.name'', JStr '' __proto__''),
      (''data.skills. __proto__.stat'', JStr ''Might''),
      (''data.skills.__proto__ .name'', JStr ''__proto__ ''),
      (''data.skills.__proto__ .stat'', JStr ''Speed'')]"

definition protoNameRows :: jsobj where
  "protoNameRows =
     [(''Climbing'', JPlain [(''name'', JStr ''Climbing'')]),
      ('' __proto__'', JPlain [(''name'', JStr '' __proto__''), (''stat'', JStr ''Might'')]),
      (''__proto__ '', JPlain [(''name'', JStr ''__proto__ ''), (''stat'', JStr ''Speed'')])]"

text \<open>
  A submission with a field whose name begins like the skills path and belongs to no
  collection, and with a field named \<open>__proto__\<close>.
\<close>

definition openKeysSubmission :: jsobj where
  "openKeysSubmission =
     [(''name'', JStr ''Thorn''), (''data.skillsExtra'', JStr ''x''), (''__proto__'', JStr ''y'')]"

text \<open>A submission in which the user has named a skill \<open>hasOwnProperty\<close>.\<close>

definition methodNameSubmission :: jsobj where
  "methodNameSubmission =
     [(''data.skills.hasOwnProperty.name'', JStr ''hasOwnProperty''),
      (''data.skills.hasOwnProperty.stat'', JStr ''Might'')]"

text \<open>A submission that repeats the persisted rows of the sample character.\<close>

definition unchangedSubmission :: jsobj where
  "unchangedSubmission =
     [(''name'', JStr ''Thorn''),
      (''data.skills.Climbing.name'', JStr ''Climbing''),
      (''data.skills.Climbing.stat'', JStr ''Speed''),
      (''data.skills.Running.name'', JStr ''Running''),
      (''data.skills.Running.stat'', JStr ''Might''),
      (''data.equipment.weapons.Sword.name'', JStr ''Sword'')]"

definition sampleSkills :: jsobj where
  "sampleSkills =
     [(''Climbing'', JPlain [(''name'', JStr ''Climbing''), (''stat'', JStr ''Speed'')]),
      (''Running'', JPlain [(''name'', JStr ''Running''), (''stat'', JStr ''Might'')])]"

definition sampleSkillsObject :: jsdict where
  "sampleSkillsObject = \<lparr>proto = ObjectPrototype, own = sampleSkills\<rparr>"

definition unchangedPatch :: jsdict where
  "unchangedPatch = \<lparr>proto = ObjectPrototype, own =
     [(''_id'', JStr ''a1''),
      (''data.skills'', JPlain sampleSkills),
      (''data.equipment.weapons'', JPlain [(''Sword'', JPlain [(''name'', JStr ''Sword'')])]),
      (''data.abilities'', JPlain []),
      (''name'', JStr ''Thorn'')]\<rparr>"

text \<open>A submission that has a field named \<open>_id\<close>.\<close>

definition idSubmission :: jsobj where
  "idSubmission = [(''_id'', JStr ''other''), (''data.level'', JNum 3)]"

text \<open>
  A character with an ability A and an ability whose name is spelled like the sentinel
  of A.
\<close>

definition shadowedActor :: actor where
  "shadowedActor = \<lparr>actor_id = JStr ''a3'', actor_data = JPlain
     [(''skills'', JPlain [(''Climbing'', JPlain [(''name'', JStr ''Climbing''), (''stat'', JStr ''Speed'')])]),
      (''equipment'', JPlain [(''weapons'', JPlain [])]),
      (''abilities'', JPlain
        [(''A'', JPlain [(''name'', JStr ''A'')]),
         (''-=A'', JPlain [(''name'', JStr ''-=A'')])])]\<rparr>"

text \<open>
  A page with a skills table: the row template, a body with the row of Climbing, and a
  footer with the control that creates rows. The last cell of a row holds the control
  that deletes it.
\<close>

definition field :: "string \<Rightarrow> string \<Rightarrow> element" where
  "field n v = Element ''input'' [] None n v [] []"

definition cell :: "element list \<Rightarrow> element" where
  "cell inputs = Element ''td'' [] None [] [] inputs []"

definition skillRow :: "string \<Rightarrow> string \<Rightarrow> element" where
  "skillRow key v = Element ''tr'' [''skill''] None [] []
     [cell [field (''data.skills.'' @ key @ ''.name'') v],
      cell [field (''data.skills.'' @ key @ ''.stat'') ''Speed''],
      cell [field (''data.skills.'' @ key @ ''.inability'') ''false''],
      cell [field (''data.skills.'' @ key @ ''.trained'') ''true''],
      cell [field (''data.skills.'' @ key @ ''.specialized'') ''false''],
      cell [Element ''a'' [''skill-control''] (Some ''delete'') [] [] [] []]] []"

definition skillsTable :: "element list \<Rightarrow> element list \<Rightarrow> element" where
  "skillsTable templates rows = Element ''table'' [''skills''] None [] []
     (templates @
      [Element ''tbody'' [] None [] [] rows [],
       Element ''tfoot'' [] None [] []
         [Element ''a'' [''skill-control''] (Some ''create'') [] [] [] []] []]) []"

definition rowTemplate :: element where
  "rowTemplate = Element ''template'' [] None [] [] [] [skillRow [] []]"

definition sampleTable :: element where
  "sampleTable = skillsTable [rowTemplate] [skillRow ''Climbing'' ''Climbing'']"

definition samplePage :: element where
  "samplePage = Element ''html'' [] None [] [] [sampleTable] []"

definition sampleSheet :: sheet where
  "sampleSheet = \<lparr>page = samplePage, submits = 0\<rparr>"

text \<open>The same page without the row template, and with the name of the row cleared.\<close>

definition bareTable :: element where
  "bareTable = skillsTable [] [skillRow ''Climbing'' ''Climbing'']"

definition bareSheet :: sheet where
  "bareSheet = \<lparr>page = Element ''html'' [] None [] [] [bareTable] [], submits = 0\<rparr>"

definition clearedPage :: element where
  "clearedPage = Element ''html'' [] None [] []
     [skillsTable [rowTemplate] [skillRow ''Climbing'' []]] []"

section \<open>Properties of the dictionary operations\<close>

lemma andThen_Inr: "andThen (Inr x) f = f x"
  by (simp add: andThen_def)

lemma andThen_eq_Inr: "(andThen m f = Inr y) = (\<exists>x. m = Inr x \<and> f x = Inr y)"
  by (cases m) (simp_all add: andThen_def)

lemma andThen_eq_Inl:
  "(andThen m f = Inl e) = (m = Inl e \<or> (\<exists>x. m = Inr x \<and> f x = Inl e))"
  by (cases m) (simp_all add: andThen_def)

lemma map_of_putOwn: "map_of (putOwn props k v) = (map_of props)(k \<mapsto> v)"
  by (induction props k v rule: putOwn.induct) auto

lemma keys_putOwn: "fst ` set (putOwn props k v) = insert k (fst ` set props)"
  by (induction props k v rule: putOwn.induct) auto

lemma distinct_putOwn: "distinct (map fst props) \<Longrightarrow> distinct (map fst (putOwn props k v))"
  by (induction props k v rule: putOwn.induct) (auto simp: keys_putOwn)

lemma ownKey_map_of: "ownKey props k = (map_of props k \<noteq> None)"
  by (simp add: ownKey_def map_of_eq_None_iff)

lemma ownKey_putOwn: "ownKey (putOwn props k v) k' = (k' = k \<or> ownKey props k')"
  by (auto simp: ownKey_def keys_putOwn)

lemma set_prop_plain: "k \<noteq> ''__proto__'' \<Longrightarrow> set_prop obj k v = obj\<lparr>own := putOwn (own obj) k v\<rparr>"
  by (simp add: set_prop_def)

lemma own_set_prop:
  "own (set_prop obj k v) = own obj \<and> k = ''__proto__'' \<or>
   set_prop obj k v = obj\<lparr>own := putOwn (own obj) k v\<rparr>"
  by (auto simp: set_prop_def split: jsval.splits)

lemma map_of_own_set_prop:
  "k' \<noteq> ''__proto__'' \<Longrightarrow>
   map_of (own (set_prop obj k v)) k' = (if k' = k then Some v else map_of (own obj) k')"
  using own_set_prop[of obj k v] by (auto simp: map_of_putOwn)

lemma own_set_prop_origin:
  "map_of (own (set_prop obj k v)) k' = Some x \<Longrightarrow> k' = k \<and> x = v \<or> map_of (own obj) k' = Some x"
  using own_set_prop[of obj k v] by (auto simp: map_of_putOwn split: if_splits)

lemma distinct_own_set_prop:
  "distinct (map fst (own obj)) \<Longrightarrow> distinct (map fst (own (set_prop obj k v)))"
  using own_set_prop[of obj k v] by (auto simp: distinct_putOwn)

lemma startsWith_append: "startsWith (p @ s) p"
  by (simp add: startsWith_def)

lemma startsWith_Nil: "\<not> startsWith [] ''-=''"
  by (simp add: startsWith_def)

lemma js_get_error: "js_get v k = Inl e \<Longrightarrow> e = TypeError"
  by (cases v) auto

lemma path_get_error: "path_get v ks = Inl e \<Longrightarrow> e = TypeError"
  by (induction ks arbitrary: v) (auto simp: andThen_eq_Inl dest: js_get_error)

lemma object_values_error: "object_values v = Inl e \<Longrightarrow> e = TypeError"
  by (cases v) auto

lemma object_keys_error: "object_keys v = Inl e \<Longrightarrow> e = TypeError"
  by (cases v) auto

lemma hasOwnProperty_error: "hasOwnProperty obj k = Inl e \<Longrightarrow> e = TypeError"
  by (auto simp: hasOwnProperty_def split: if_splits)

section \<open>Properties of the merger\<close>

lemma formDataReduceFunction_entityKey:
  "formDataReduceFunction obj v =
     (case entityKey v of None \<Rightarrow> Inl TypeError | Some k \<Rightarrow> Inr (set_prop obj k v))"
  by (cases v) (auto simp: formDataReduceFunction_def entityKey_def andThen_def split: jsval.splits option.splits)

lemma entityKey_JNull: "entityKey JNull = None"
  by (simp add: entityKey_def)

lemma entityKey_trim: "js_get v ''name'' = Inr (JStr s) \<Longrightarrow> entityKey v = Some (trim s)"
  by (simp add: entityKey_def)

lemma reduce_rows_Cons:
  "reduce formDataReduceFunction (v # rows) acc =
     (case entityKey v of None \<Rightarrow> Inl TypeError
      | Some k \<Rightarrow> reduce formDataReduceFunction rows (set_prop acc k v))"
  unfolding reduce.simps formDataReduceFunction_entityKey by (simp split: option.splits)

lemma reduce_rows_Inl:
  "\<exists>v\<in>set rows. entityKey v = None \<Longrightarrow> reduce formDataReduceFunction rows acc = Inl TypeError"
  by (induction rows arbitrary: acc) (auto simp: reduce_rows_Cons simp del: reduce.simps split: option.splits)

lemma reduce_rows_named:
  "reduce formDataReduceFunction rows acc = Inr m \<Longrightarrow> v \<in> set rows \<Longrightarrow> entityKey v \<noteq> None"
  using reduce_rows_Inl[of rows acc] by (cases "entityKey v") auto

lemma reduce_rows_total:
  "\<forall>v\<in>set rows. entityKey v \<noteq> None \<Longrightarrow> \<exists>m. reduce formDataReduceFunction rows acc = Inr m"
  by (induction rows arbitrary: acc) (auto simp: reduce_rows_Cons simp del: reduce.simps(2) split: option.splits)

lemma reduce_rows_error: "reduce formDataReduceFunction rows acc = Inl e \<Longrightarrow> e = TypeError"
  by (induction rows arbitrary: acc)
    (auto simp: reduce_rows_Cons simp del: reduce.simps(2) split: option.splits)

lemma reduce_rows_foldl:
  "reduce formDataReduceFunction rows acc = Inr m \<Longrightarrow>
   m = foldl (\<lambda>obj v. set_prop obj (the (entityKey v)) v) acc rows"
  by (induction rows arbitrary: acc)
    (auto simp: reduce_rows_Cons simp del: reduce.simps(2) split: option.splits)

lemma reduce_rows_lookup:
  "reduce formDataReduceFunction rows acc = Inr m \<Longrightarrow> k \<noteq> ''__proto__'' \<Longrightarrow>
   map_of (own m) k = (case filter (\<lambda>v. entityKey v = Some k) rows of
                   [] \<Rightarrow> map_of (own acc) k | vs \<Rightarrow> Some (last vs))"
proof (induction rows arbitrary: acc)
  case Nil
  then show ?case by simp
next
  case (Cons v rows)
  from Cons.prems obtain k' where k': "entityKey v = Some k'"
    and rest: "reduce formDataReduceFunction rows (set_prop acc k' v) = Inr m"
    by (auto simp: reduce_rows_Cons simp del: reduce.simps split: option.splits)
  show ?case
    using Cons.IH[OF rest Cons.prems(2)] k' Cons.prems(2)
    by (auto simp: map_of_own_set_prop split: list.splits)
qed

lemma reduce_rows_distinct:
  "reduce formDataReduceFunction rows acc = Inr m \<Longrightarrow> distinct (map fst (own acc)) \<Longrightarrow>
   distinct (map fst (own m))"
proof (induction rows arbitrary: acc)
  case Nil
  then show ?case by simp
next
  case (Cons v rows)
  from Cons.prems(1) obtain k' where
    rest: "reduce formDataReduceFunction rows (set_prop acc k' v) = Inr m"
    by (auto simp: reduce_rows_Cons simp del: reduce.simps split: option.splits)
  show ?case
    by (rule Cons.IH[OF rest]) (rule distinct_own_set_prop[OF Cons.prems(2)])
qed

lemma reduce_rows_values:
  "reduce formDataReduceFunction rows acc = Inr m \<Longrightarrow>
   \<forall>k v. map_of (own acc) k = Some v \<longrightarrow> entityKey v = Some k \<Longrightarrow>
   map_of (own m) k = Some v \<Longrightarrow> entityKey v = Some k"
proof (induction rows arbitrary: acc)
  case Nil
  then show ?case by simp
next
  case (Cons r rows)
  from Cons.prems(1) obtain k' where k': "entityKey r = Some k'"
    and rest: "reduce formDataReduceFunction rows (set_prop acc k' r) = Inr m"
    by (auto simp: reduce_rows_Cons simp del: reduce.simps split: option.splits)
  have "\<forall>k v. map_of (own (set_prop acc k' r)) k = Some v \<longrightarrow> entityKey v = Some k"
    using Cons.prems(2) k' own_set_prop_origin[of acc k' r] by blast
  from Cons.IH[OF rest this Cons.prems(3)] show ?case .
qed

lemma keyedCollection_Inr:
  "(keyedCollection formRows = Inr keyed) =
   (\<exists>rows. object_values formRows = Inr rows \<and>
      reduce formDataReduceFunction rows emptyObject = Inr keyed)"
  unfolding keyedCollection_def andThen_eq_Inr ..

lemma keyedCollection_values:
  assumes "keyedCollection formRows = Inr keyed" and "map_of (own keyed) k = Some v"
  shows "entityKey v = Some k"
proof -
  from assms(1) obtain rows where "reduce formDataReduceFunction rows emptyObject = Inr keyed"
    unfolding keyedCollection_Inr by blast
  from reduce_rows_values[OF this _ assms(2)] show ?thesis by (simp add: emptyObject_def)
qed

lemma keyedCollection_lookup:
  assumes "object_values formRows = Inr rows" and "keyedCollection formRows = Inr keyed"
    and "k \<noteq> ''__proto__''"
  shows "map_of (own keyed) k =
    (case filter (\<lambda>v. entityKey v = Some k) rows of [] \<Rightarrow> None | vs \<Rightarrow> Some (last vs))"
proof -
  from assms have "reduce formDataReduceFunction rows emptyObject = Inr keyed"
    unfolding keyedCollection_Inr by simp
  from reduce_rows_lookup[OF this assms(3)] show ?thesis
    by (simp add: emptyObject_def split: list.splits)
qed

lemma keyedCollection_distinct:
  assumes "keyedCollection formRows = Inr keyed"
  shows "distinct (map fst (own keyed))"
proof -
  from assms obtain rows where "reduce formDataReduceFunction rows emptyObject = Inr keyed"
    unfolding keyedCollection_Inr by blast
  from reduce_rows_distinct[OF this] show ?thesis by (simp add: emptyObject_def)
qed

lemma keyedCollection_succeeds:
  "object_values formRows = Inr rows \<Longrightarrow>
   (\<exists>keyed. keyedCollection formRows = Inr keyed) = (\<forall>v\<in>set rows. entityKey v \<noteq> None)"
  unfolding keyedCollection_Inr
  using reduce_rows_total[of rows emptyObject] reduce_rows_named[of rows emptyObject] by auto

lemma keyedCollection_error: "keyedCollection formRows = Inl e \<Longrightarrow> e = TypeError"
  by (auto simp: keyedCollection_def andThen_eq_Inl dest: object_values_error reduce_rows_error)

lemma formCollection_error: "formCollection c fd = Inl e \<Longrightarrow> e = TypeError"
  by (cases c) (auto simp: andThen_eq_Inl simp del: path_get.simps dest: path_get_error js_get_error)

lemma persistedKeys_error: "persistedKeys c object = Inl e \<Longrightarrow> e = TypeError"
  by (cases c) (auto simp: persistedKeys_def andThen_eq_Inl simp del: path_get.simps
      dest: path_get_error object_keys_error)

lemma addSentinels_keeps_keys:
  "ownKey props k \<Longrightarrow> ownKey (addSentinels ks props) k"
  by (induction ks arbitrary: props) (auto simp: ownKey_putOwn)

lemma addSentinels_keeps_null:
  "map_of props k = Some JNull \<Longrightarrow> map_of (addSentinels ks props) k = Some JNull"
  by (induction ks arbitrary: props) (auto simp: map_of_putOwn)

lemma addSentinels_keeps_entities:
  "map_of props k = Some v \<Longrightarrow> \<not> startsWith k ''-='' \<Longrightarrow>
   map_of (addSentinels ks props) k = Some v"
proof (induction ks arbitrary: props)
  case Nil
  then show ?case by simp
next
  case (Cons sk sks)
  have "k \<noteq> ''-='' @ sk"
    using Cons.prems(2) startsWith_append[of "''-=''" sk] by auto
  with Cons.prems(1) have "map_of (putOwn props (''-='' @ sk) JNull) k = Some v"
    by (simp add: map_of_putOwn)
  with Cons.prems Cons.IH show ?case by simp
qed

lemma addSentinels_origin:
  "map_of (addSentinels ks props) k = Some v \<Longrightarrow>
   map_of props k = Some v \<or>
   (v = JNull \<and> (\<exists>K\<in>set ks. K \<noteq> [] \<and> k = ''-='' @ K \<and> \<not> ownKey props K))"
proof (induction ks arbitrary: props)
  case Nil
  then show ?case by simp
next
  case (Cons sk sks)
  let ?next = "if sk \<noteq> [] \<and> \<not> ownKey props sk
               then putOwn props (''-='' @ sk) JNull else props"
  have grows: "\<And>K. \<not> ownKey ?next K \<Longrightarrow> \<not> ownKey props K"
    by (auto simp: ownKey_putOwn split: if_splits)
  from Cons.prems have "map_of (addSentinels sks ?next) k = Some v" by simp
  from Cons.IH[OF this] consider
      (old) "map_of ?next k = Some v"
    | (new) K where "v = JNull" "K \<in> set sks" "K \<noteq> []" "k = ''-='' @ K" "\<not> ownKey ?next K"
    by blast
  then show ?case
  proof cases
    case old
    then show ?thesis
      by (auto simp: map_of_putOwn split: if_splits)
  next
    case new
    with grows[of K] show ?thesis by auto
  qed
qed

lemma addSentinels_emits:
  "K \<in> set ks \<Longrightarrow> K \<noteq> [] \<Longrightarrow> \<not> ownKey props K \<Longrightarrow>
   \<forall>K'\<in>set ks. K \<noteq> ''-='' @ K' \<Longrightarrow>
   map_of (addSentinels ks props) (''-='' @ K) = Some JNull"
proof (induction ks arbitrary: props)
  case Nil
  then show ?case by simp
next
  case (Cons sk sks)
  show ?case
  proof (cases "K = sk")
    case True
    with Cons.prems have "map_of (putOwn props (''-='' @ sk) JNull) (''-='' @ K) = Some JNull"
      by (simp add: map_of_putOwn)
    from addSentinels_keeps_null[OF this] True Cons.prems show ?thesis by simp
  next
    case False
    let ?next = "if sk \<noteq> [] \<and> \<not> ownKey props sk
                 then putOwn props (''-='' @ sk) JNull else props"
    from False Cons.prems have "K \<in> set sks" by simp
    moreover have "\<not> ownKey ?next K"
      using Cons.prems by (auto simp: ownKey_putOwn)
    moreover have "\<forall>K'\<in>set sks. K \<noteq> ''-='' @ K'" using Cons.prems by simp
    ultimately have "map_of (addSentinels sks ?next) (''-='' @ K) = Some JNull"
      using Cons.prems(2) by (intro Cons.IH) auto
    then show ?thesis by simp
  qed
qed

lemma addSentinels_no_entry:
  assumes "\<not> ownKey props K" and "\<forall>K'\<in>set ks. K \<noteq> ''-='' @ K'"
  shows "map_of (addSentinels ks props) K = None"
proof (cases "map_of (addSentinels ks props) K")
  case None
  then show ?thesis .
next
  case (Some v)
  from addSentinels_origin[OF Some] assms show ?thesis
    by (auto simp: ownKey_map_of)
qed

lemma addSentinels_all_present:
  "\<forall>k\<in>set ks. k = [] \<or> ownKey props k \<Longrightarrow> addSentinels ks props = props"
  by (induction ks) auto

lemma addSentinels_distinct:
  "distinct (map fst props) \<Longrightarrow> distinct (map fst (addSentinels ks props))"
  by (induction ks arbitrary: props) (auto simp: distinct_putOwn)

lemma absent_rows_all_sentinels:
  assumes "\<forall>K\<in>set ks. \<forall>K'\<in>set ks. K \<noteq> ''-='' @ K'"
  shows "map_of (addSentinels ks []) k =
    (if \<exists>K\<in>set ks. K \<noteq> [] \<and> k = ''-='' @ K then Some JNull else None)"
proof (cases "\<exists>K\<in>set ks. K \<noteq> [] \<and> k = ''-='' @ K")
  case True
  then obtain K where K: "K \<in> set ks" "K \<noteq> []" "k = ''-='' @ K" by blast
  with assms have "map_of (addSentinels ks []) (''-='' @ K) = Some JNull"
    by (intro addSentinels_emits) (auto simp: ownKey_def)
  with True K show ?thesis by simp
next
  case False
  have "map_of (addSentinels ks []) k = None"
  proof (cases "map_of (addSentinels ks []) k")
    case None
    then show ?thesis .
  next
    case (Some v)
    from addSentinels_origin[OF Some] False show ?thesis by auto
  qed
  with False show ?thesis by simp
qed


lemma removeUnused_eq:
  "removeUnused ks obj =
     (if (\<forall>k\<in>set ks. k = []) \<or>
         \<not> ownKey (own obj) ''hasOwnProperty'' \<and> inheritsBuiltin (proto obj) ''hasOwnProperty''
      then Inr (obj\<lparr>own := addSentinels ks (own obj)\<rparr>)
      else Inl TypeError)"
proof (induction ks arbitrary: obj)
  case Nil
  then show ?case by simp
next
  case (Cons sk sks)
  show ?case
  proof (cases "sk = []")
    case True
    with Cons.IH[of obj] show ?thesis by simp
  next
    case False
    let ?next = "obj\<lparr>own := putOwn (own obj) (''-='' @ sk) JNull\<rparr>"
    have step: "set_prop obj (''-='' @ sk) JNull = ?next"
      by (rule set_prop_plain) simp
    have kept: "ownKey (own ?next) ''hasOwnProperty'' = ownKey (own obj) ''hasOwnProperty''"
      by (simp add: ownKey_putOwn)
    show ?thesis
    proof (cases "\<not> ownKey (own obj) ''hasOwnProperty'' \<and> inheritsBuiltin (proto obj) ''hasOwnProperty''")
      case True
      then have call: "hasOwnProperty obj sk = Inr (ownKey (own obj) sk)"
        by (simp add: hasOwnProperty_def)
      show ?thesis
      proof (cases "ownKey (own obj) sk")
        case present: True
        with False call True Cons.IH[of obj] show ?thesis
          by (simp add: andThen_def)
      next
        case absent: False
        with False call True Cons.IH[of ?next] kept step show ?thesis
          by (simp add: andThen_def)
      qed
    next
      case no: False
      then have "hasOwnProperty obj sk = Inl TypeError"
        by (auto simp: hasOwnProperty_def)
      with False no show ?thesis by (auto simp: andThen_def)
    qed
  qed
qed

lemma removeUnused_Inr:
  "removeUnused ks obj = Inr out \<Longrightarrow> out = obj\<lparr>own := addSentinels ks (own obj)\<rparr>"
  unfolding removeUnused_eq by (auto split: if_splits)

lemma removeUnused_error: "removeUnused ks obj = Inl e \<Longrightarrow> e = TypeError"
  unfolding removeUnused_eq by (auto split: if_splits)

text \<open>
  Two rows whose names trim to Jumping are keyed into one entry that holds the later
  row.
\<close>

lemma duplicate_rows_keep_later:
  "andThen (formCollection Skills (expandObject duplicateSubmission)) keyedCollection =
     Inr \<lparr>proto = ObjectPrototype, own =
       [(''Jumping'', JPlain [(''name'', JStr '' Jumping ''), (''stat'', JStr ''Speed'')])]\<rparr>"
  by code_simp

text \<open>
  A row named \<open>hasOwnProperty\<close> is filed like any other row and then stands in the
  way of the method: the first test of a persisted key throws, and no patch is built.
\<close>

lemma method_named_row_throws:
  "andThen (formCollection Skills (expandObject methodNameSubmission)) keyedCollection =
     Inr \<lparr>proto = ObjectPrototype, own =
       [(''hasOwnProperty'', JPlain [(''name'', JStr ''hasOwnProperty''), (''stat'', JStr ''Might'')])]\<rparr> \<and>
   hasOwnProperty \<lparr>proto = ObjectPrototype, own =
       [(''hasOwnProperty'', JPlain [(''name'', JStr ''hasOwnProperty''), (''stat'', JStr ''Might'')])]\<rparr>
     ''Climbing'' = Inl TypeError \<and>
   updateObject expandObject sampleActor methodNameSubmission = Inl TypeError"
  by code_simp

section \<open>Properties of the re-combination and of the whole submission\<close>

lemma foldl_set_prop_lookup:
  "k \<noteq> ''__proto__'' \<Longrightarrow>
   map_of (own (foldl (\<lambda>obj e. set_prop obj (fst e) (snd e)) seed es)) k =
     (case map_of (rev es) k of None \<Rightarrow> map_of (own seed) k | Some v \<Rightarrow> Some v)"
proof (induction es arbitrary: seed)
  case Nil
  then show ?case by simp
next
  case (Cons e es)
  show ?case
    using Cons.prems
    by (cases e) (auto simp: Cons.IH map_of_own_set_prop map_add_def split: option.splits)
qed

lemma map_of_rev_distinct:
  "distinct (map fst es) \<Longrightarrow> map_of (rev es) = map_of es"
  by (rule ext) (metis distinct_rev map_of_eq_Some_iff map_of_eq_None_iff option.exhaust rev_map set_rev set_map)

lemma map_of_filter_keys:
  "map_of (filter (\<lambda>e. P (fst e)) es) k = (if P k then map_of es k else None)"
  by (induction es) auto

lemma managed_keys:
  "managed ''data.skills''" "managed ''data.equipment.weapons''" "managed ''data.abilities''"
  "\<not> managed ''_id''" "\<not> managed ''__proto__''"
  by (simp_all add: managed_def startsWith_def)

lemma inNamespace_managed: "inNamespace k \<Longrightarrow> managed k"
  by (auto simp: inNamespace_def managed_def startsWith_def take_eq_Nil
      dest: arg_cong[where f = "take 11"] arg_cong[where f = "take 22"] arg_cong[where f = "take 14"])

lemma recombine_lookup:
  assumes "distinct (map fst formData)" and "k \<noteq> ''__proto__''"
  shows "map_of (own (recombine oid skills weapons abilities formData)) k =
     (if managed k
      then map_of [(''data.skills'', toValue skills), (''data.equipment.weapons'', toValue weapons),
                   (''data.abilities'', toValue abilities)] k
      else (case map_of formData k of
              Some v \<Rightarrow> Some v
            | None \<Rightarrow> if k = ''_id'' then Some oid else None))"
proof -
  let ?kept = "filter (\<lambda>e. \<not> managed (fst e)) formData"
  have "distinct (map fst ?kept)" using assms(1) by (simp add: distinct_map_filter)
  then have kept: "map_of (rev ?kept) k = (if \<not> managed k then map_of formData k else None)"
    by (simp add: map_of_rev_distinct map_of_filter_keys[of "\<lambda>k. \<not> managed k"])
  show ?thesis
    unfolding recombine_def foldl_set_prop_lookup[OF assms(2)] kept
    using managed_keys by (auto split: option.splits)
qed

lemma recombine_collection:
  "map_of (own (recombine oid skills weapons abilities formData)) ''data.skills'' = Some (toValue skills)"
  "map_of (own (recombine oid skills weapons abilities formData)) ''data.equipment.weapons'' =
     Some (toValue weapons)"
  "map_of (own (recombine oid skills weapons abilities formData)) ''data.abilities'' =
     Some (toValue abilities)"
proof -
  let ?kept = "filter (\<lambda>e. \<not> managed (fst e)) formData"
  have kept: "\<And>k. managed k \<Longrightarrow> map_of (rev ?kept) k = None"
    by (auto simp: map_of_eq_None_iff)
  have n: "''data.skills'' \<noteq> ''__proto__''" "''data.equipment.weapons'' \<noteq> ''__proto__''"
    "''data.abilities'' \<noteq> ''__proto__''" by simp_all
  show "map_of (own (recombine oid skills weapons abilities formData)) ''data.skills'' = Some (toValue skills)"
    "map_of (own (recombine oid skills weapons abilities formData)) ''data.equipment.weapons'' =
       Some (toValue weapons)"
    "map_of (own (recombine oid skills weapons abilities formData)) ''data.abilities'' =
       Some (toValue abilities)"
    unfolding recombine_def foldl_set_prop_lookup[OF n(1)] foldl_set_prop_lookup[OF n(2)]
      foldl_set_prop_lookup[OF n(3)]
    using managed_keys by (simp_all add: kept)
qed

lemma mergedCollection_Inr:
  "(mergedCollection c fd object = Inr out) =
   (\<exists>formRows keyed ks. formCollection c fd = Inr formRows \<and> keyedCollection formRows = Inr keyed \<and>
      persistedKeys c object = Inr ks \<and> removeUnused ks keyed = Inr out)"
  unfolding mergedCollection_def andThen_eq_Inr by auto

lemma updateObject_Inr:
  "(updateObject expand object formData = Inr patch) =
   (\<exists>skills weapons abilities.
      mergedCollection Skills (expand formData) object = Inr skills \<and>
      mergedCollection Weapons (expand formData) object = Inr weapons \<and>
      mergedCollection Abilities (expand formData) object = Inr abilities \<and>
      patch = recombine (actor_id object) skills weapons abilities formData)"
  unfolding updateObject_def mergedCollection_def Let_def andThen_eq_Inr
  by (auto simp del: formCollection.simps)

lemma patch_collection:
  assumes "updateObject expand object formData = Inr patch"
  shows "\<exists>out. mergedCollection c (expand formData) object = Inr out \<and>
           map_of (own patch) (patchKey c) = Some (toValue out)"
  using assms unfolding updateObject_Inr
  by (cases c) (auto simp: recombine_collection)

lemma mergedCollection_error: "mergedCollection c fd object = Inl e \<Longrightarrow> e = TypeError"
  unfolding mergedCollection_def andThen_eq_Inl
  by (auto dest: formCollection_error keyedCollection_error persistedKeys_error removeUnused_error)

lemma updateObject_error: "updateObject expand object formData = Inl e \<Longrightarrow> e = TypeError"
  unfolding updateObject_def Let_def andThen_eq_Inl
  by (elim disjE exE conjE)
    (auto simp del: formCollection.simps
      dest: formCollection_error keyedCollection_error persistedKeys_error removeUnused_error)

lemma updateObject_rows:
  assumes "updateObject expand object formData = Inr patch"
  shows "\<exists>formRows keyed ks out. formCollection c (expand formData) = Inr formRows \<and>
    keyedCollection formRows = Inr keyed \<and> persistedKeys c object = Inr ks \<and>
    removeUnused ks keyed = Inr out"
  using patch_collection[OF assms, of c] by (auto simp: mergedCollection_Inr)

text \<open>
  When \<^verbatim>\<open>_updateObject\<close> reaches \<^verbatim>\<open>this.object.update\<close>, and what it hands over for a
  collection that the submission does not mention at all, provided no persisted key is
  spelled like the sentinel of a persisted key.
\<close>

lemma updateObject_succeeds:
  "(\<exists>patch. updateObject expand object formData = Inr patch) =
   (\<forall>c. \<exists>formRows keyed ks out. formCollection c (expand formData) = Inr formRows \<and>
      keyedCollection formRows = Inr keyed \<and> persistedKeys c object = Inr ks \<and>
      removeUnused ks keyed = Inr out)"
proof
  assume "\<exists>patch. updateObject expand object formData = Inr patch"
  then show "\<forall>c. \<exists>formRows keyed ks out. formCollection c (expand formData) = Inr formRows \<and>
      keyedCollection formRows = Inr keyed \<and> persistedKeys c object = Inr ks \<and>
      removeUnused ks keyed = Inr out"
    using updateObject_rows by blast
next
  assume all: "\<forall>c. \<exists>formRows keyed ks out. formCollection c (expand formData) = Inr formRows \<and>
      keyedCollection formRows = Inr keyed \<and> persistedKeys c object = Inr ks \<and>
      removeUnused ks keyed = Inr out"
  have "\<exists>out. mergedCollection c (expand formData) object = Inr out" for c
    using all unfolding mergedCollection_Inr by blast
  then obtain s w a where "mergedCollection Skills (expand formData) object = Inr s"
    "mergedCollection Weapons (expand formData) object = Inr w"
    "mergedCollection Abilities (expand formData) object = Inr a"
    by blast
  then show "\<exists>patch. updateObject expand object formData = Inr patch"
    unfolding updateObject_Inr by blast
qed

lemma absent_collection_patch:
  assumes "updateObject expand object formData = Inr patch"
    and "formCollection c (expand formData) = Inr formRows"
    and "object_values formRows = Inr []"
    and "persistedKeys c object = Inr ks"
    and "\<forall>K\<in>set ks. \<forall>K'\<in>set ks. K \<noteq> ''-='' @ K'"
  shows "map_of (own patch) (patchKey c) = Some (JPlain (addSentinels ks [])) \<and>
    (\<forall>k. map_of (addSentinels ks []) k =
       (if \<exists>K\<in>set ks. K \<noteq> [] \<and> k = ''-='' @ K then Some JNull else None))"
proof -
  from assms(3) have keyed: "keyedCollection formRows = Inr emptyObject"
    by (simp add: keyedCollection_def andThen_def)
  from patch_collection[OF assms(1), of c] assms(2,4) keyed
  obtain out where out: "removeUnused ks emptyObject = Inr out"
    "map_of (own patch) (patchKey c) = Some (toValue out)"
    by (auto simp: mergedCollection_Inr)
  from removeUnused_Inr[OF out(1)] have "toValue out = JPlain (addSentinels ks [])"
    by (simp add: toValue_def emptyObject_def)
  with out(2) absent_rows_all_sentinels[OF assms(5)] show ?thesis by simp
qed

text \<open>
  The filter of the re-combination tests how a key begins, and the patch is built by
  assignments to an object literal: a raw key \<open>data.skillsExtra\<close> is dropped with
  the rows of the skills, and a raw key \<open>__proto__\<close> with a string creates no
  property of the patch.
\<close>

lemma open_keys_are_not_kept:
  "managed ''data.skillsExtra'' \<and> \<not> inNamespace ''data.skillsExtra'' \<and>
   updateObject expandObject sampleActor openKeysSubmission =
     Inr \<lparr>proto = ObjectPrototype, own =
       [(''_id'', JStr ''a1''),
        (''data.skills'', JPlain [(''-=Climbing'', JNull), (''-=Running'', JNull)]),
        (''data.equipment.weapons'', JPlain [(''-=Sword'', JNull)]),
        (''data.abilities'', JPlain []),
        (''name'', JStr ''Thorn'')]\<rparr>"
  by code_simp

section \<open>Properties of the markup operations\<close>

lemma node_at_append:
  "node_at e (p @ q) = (case node_at e p of None \<Rightarrow> None | Some n \<Rightarrow> node_at n q)"
  by (induction p arbitrary: e) auto

lemma node_at_snoc:
  "node_at e (p @ [i]) = Some n \<Longrightarrow>
   \<exists>parent. node_at e p = Some parent \<and> i < length (children parent) \<and> children parent ! i = n"
  by (auto simp: node_at_append split: option.splits if_splits)

lemma closest_node:
  "closest matches e p = Some q \<Longrightarrow> \<exists>n. node_at e q = Some n \<and> matches n"
proof (induction p arbitrary: e q)
  case Nil
  then show ?case by (auto split: if_splits)
next
  case (Cons i p)
  then show ?case by (fastforce split: if_splits option.splits)
qed

lemma firstByTagName_node:
  "firstByTagName t e = Some q \<Longrightarrow> \<exists>n. node_at e q = Some n \<and> tag n = t \<and> q \<noteq> []"
  and firstAmong_node:
  "firstAmong t cs i = Some q \<Longrightarrow>
     \<exists>j q' n. q = (i + j) # q' \<and> j < length cs \<and> node_at (cs ! j) q' = Some n \<and> tag n = t"
proof (induction t e and t cs i arbitrary: q and q rule: firstByTagName_firstAmong.induct)
  case (1 t tg cl ac fn fv ch co)
  from "1.IH"[OF "1.prems"[simplified]] show ?case by auto
next
  case (2 t i)
  then show ?case by simp
next
  case (3 t c cs i)
  show ?case
  proof (cases "tag c = t")
    case True
    with "3.prems" have "q = [i]" by simp
    with True show ?thesis by (intro exI[of _ 0] exI[of _ "[]"] exI[of _ c]) simp
  next
    case False
    show ?thesis
    proof (cases "firstByTagName t c")
      case (Some p)
      with False "3.prems" have q: "q = i # p" by simp
      from "3.IH"(1)[OF False Some] obtain n where "node_at c p = Some n" "tag n = t" by blast
      with q show ?thesis by (intro exI[of _ 0] exI[of _ p] exI[of _ n]) simp
    next
      case None
      with False "3.prems" have "firstAmong t cs (Suc i) = Some q" by simp
      from "3.IH"(2)[OF False None this] obtain j q' n where
        "q = (Suc i + j) # q'" "j < length cs" "node_at (cs ! j) q' = Some n" "tag n = t" by blast
      then show ?thesis by (intro exI[of _ "Suc j"] exI[of _ q'] exI[of _ n]) simp
    qed
  qed
qed

lemma firstByTagName_None:
  "firstByTagName t e = None \<Longrightarrow> q \<noteq> [] \<Longrightarrow> node_at e q = Some n \<Longrightarrow> tag n \<noteq> t"
  and firstAmong_None:
  "firstAmong t cs i = None \<Longrightarrow> j < length cs \<Longrightarrow> node_at (cs ! j) q' = Some n \<Longrightarrow> tag n \<noteq> t"
proof (induction t e and t cs i arbitrary: q n and j q' n rule: firstByTagName_firstAmong.induct)
  case (1 t tg cl ac fn fv ch co)
  from "1.prems"(2) obtain j q' where q: "q = j # q'" by (cases q) auto
  with "1.prems"(3) have "j < length ch" "node_at (ch ! j) q' = Some n"
    by (auto split: if_splits)
  with "1.IH"[of j q' n] "1.prems"(1) show ?case by simp
next
  case (2 t i)
  then show ?case by simp
next
  case (3 t c cs i)
  from "3.prems"(1) have c: "tag c \<noteq> t" and deep: "firstByTagName t c = None"
    and rest: "firstAmong t cs (Suc i) = None"
    by (auto split: if_splits option.splits)
  show ?case
  proof (cases j)
    case 0
    with "3.prems"(3) have at: "node_at c q' = Some n" by simp
    show ?thesis
    proof (cases "q' = []")
      case True
      with at c show ?thesis by simp
    next
      case False
      from "3.IH"(1)[OF c deep False at] show ?thesis .
    qed
  next
    case (Suc j')
    with "3.prems"(2,3) have "j' < length cs" "node_at (cs ! j') q' = Some n" by simp_all
    from "3.IH"(2)[OF c deep rest this] show ?thesis .
  qed
qed

lemma no_template_iff:
  "(firstByTagName t e = None) = (\<forall>q n. q \<noteq> [] \<and> node_at e q = Some n \<longrightarrow> tag n \<noteq> t)"
proof
  assume "firstByTagName t e = None"
  then show "\<forall>q n. q \<noteq> [] \<and> node_at e q = Some n \<longrightarrow> tag n \<noteq> t"
    using firstByTagName_None by blast
next
  assume none: "\<forall>q n. q \<noteq> [] \<and> node_at e q = Some n \<longrightarrow> tag n \<noteq> t"
  show "firstByTagName t e = None"
  proof (cases "firstByTagName t e")
    case None
    then show ?thesis .
  next
    case (Some q)
    from firstByTagName_node[OF Some] none show ?thesis by blast
  qed
qed

lemma node_at_modify_at:
  "node_at e p = Some n \<Longrightarrow> node_at (modify_at p f e) p = Some (f n)"
  by (induction p arbitrary: e) (auto split: if_splits)

lemma node_at_modify_at_other:
  "length q = length p \<Longrightarrow> q \<noteq> p \<Longrightarrow> node_at (modify_at p f e) q = node_at e q"
proof (induction p arbitrary: q e)
  case Nil
  then show ?case by simp
next
  case (Cons i p)
  from Cons.prems(1) obtain j q' where q: "q = j # q'" by (cases q) auto
  show ?case
  proof (cases "j = i")
    case True
    with q Cons.prems have "length q' = length p" "q' \<noteq> p" by auto
    from Cons.IH[OF this] q True show ?thesis by simp
  next
    case False
    with q show ?thesis by simp
  qed
qed

lemma modify_at_same:
  "node_at e p = Some n \<Longrightarrow> f n = n \<Longrightarrow> modify_at p f e = e"
proof (induction p arbitrary: e)
  case Nil
  then show ?case by simp
next
  case (Cons i p)
  then show ?case by (cases e) (auto split: if_splits simp: list_update_same_conv)
qed

lemma children_appendChild: "children (appendChild fragment body) = children body @ fragment"
  by (simp add: appendChild_def)

lemma children_removeChild:
  "children (removeChild i parent) = take i (children parent) @ drop (Suc i) (children parent)"
  by (simp add: removeChild_def)

lemma setName_same: "setName (fname e) e = e"
  by (cases e) (simp add: setName_def)

lemma fname_setName: "fname (setName n e) = n"
  by (simp add: setName_def)

lemma assignNames_same:
  "\<forall>(i, j, n)\<in>set statements. \<exists>f. node_at pg (row @ [i, j]) = Some f \<and> fname f = n \<Longrightarrow>
   assignNames row statements pg = (pg, None)"
proof (induction statements)
  case Nil
  then show ?case by simp
next
  case (Cons st statements)
  obtain i j n where st: "st = (i, j, n)" by (cases st) auto
  with Cons.prems obtain f where f: "node_at pg (row @ [i, j]) = Some f" "fname f = n" by auto
  from modify_at_same[OF f(1), of "setName n"] f(2) setName_same[of f]
  have "modify_at (row @ [i, j]) (setName n) pg = pg" by simp
  with Cons st f show ?case by simp
qed

lemma assignNames_all:
  "distinct (map (\<lambda>(i, j, n). (i, j)) statements) \<Longrightarrow>
   \<forall>(i, j, n)\<in>set statements. node_at pg (row @ [i, j]) \<noteq> None \<Longrightarrow>
   snd (assignNames row statements pg) = None \<and>
    (\<forall>(i, j, n)\<in>set statements.
       node_at (fst (assignNames row statements pg)) (row @ [i, j]) =
         map_option (setName n) (node_at pg (row @ [i, j]))) \<and>
    (\<forall>q. length q = length row + 2 \<and> q \<notin> (\<lambda>(i, j, n). row @ [i, j]) ` set statements \<longrightarrow>
       node_at (fst (assignNames row statements pg)) q = node_at pg q)"
proof (induction statements arbitrary: pg)
  case Nil
  then show ?case by simp
next
  case (Cons st statements)
  obtain i j n where st: "st = (i, j, n)" by (cases st) auto
  let ?p = "row @ [i, j]"
  let ?pg = "modify_at ?p (setName n) pg"
  from Cons.prems(2) st obtain f where f: "node_at pg ?p = Some f" by auto
  have other: "node_at ?pg q = node_at pg q" if "length q = length row + 2" "q \<noteq> ?p" for q
    using node_at_modify_at_other[of q ?p "setName n" pg] that by simp
  have fresh: "?p \<notin> (\<lambda>(i, j, n). row @ [i, j]) ` set statements"
    using Cons.prems(1) st by (auto simp: image_iff)
  have valid: "\<forall>(i', j', n')\<in>set statements. node_at ?pg (row @ [i', j']) \<noteq> None"
  proof -
    have "node_at ?pg (row @ [i', j']) \<noteq> None" if mem: "(i', j', n') \<in> set statements" for i' j' n'
    proof -
      from mem fresh have "row @ [i', j'] \<noteq> ?p" by (auto simp: image_iff)
      from other[OF _ this] Cons.prems(2) mem show ?thesis by auto
    qed
    then show ?thesis by auto
  qed
  from Cons.prems(1) have "distinct (map (\<lambda>(i, j, n). (i, j)) statements)" by simp
  from Cons.IH[OF this valid]
  have ih1: "snd (assignNames row statements ?pg) = None"
    and ih2: "\<forall>(i, j, n)\<in>set statements.
       node_at (fst (assignNames row statements ?pg)) (row @ [i, j]) =
         map_option (setName n) (node_at ?pg (row @ [i, j]))"
    and ih3: "\<forall>q. length q = length row + 2 \<and> q \<notin> (\<lambda>(i, j, n). row @ [i, j]) ` set statements \<longrightarrow>
       node_at (fst (assignNames row statements ?pg)) q = node_at ?pg q"
    by blast+
  have run: "assignNames row (st # statements) pg = assignNames row statements ?pg"
    using st f by simp
  have head: "node_at (fst (assignNames row statements ?pg)) ?p = map_option (setName n) (node_at pg ?p)"
    using ih3 fresh node_at_modify_at[OF f, of "setName n"] f by simp
  have tail: "node_at (fst (assignNames row statements ?pg)) (row @ [i', j']) =
      map_option (setName n') (node_at pg (row @ [i', j']))"
    if mem: "(i', j', n') \<in> set statements" for i' j' n'
  proof -
    from mem fresh have "row @ [i', j'] \<noteq> ?p" by (auto simp: image_iff)
    from other[OF _ this] ih2 mem show ?thesis by auto
  qed
  have rest: "node_at (fst (assignNames row statements ?pg)) q = node_at pg q"
    if "length q = length row + 2 \<and> q \<notin> (\<lambda>(i, j, n). row @ [i, j]) ` set (st # statements)" for q
    using that ih3 other[of q] st by auto
  from ih1 head tail rest st show ?case
    unfolding run by auto
qed

lemma onNameChange_rewrites:
  assumes "\<And>v. distinct (map (\<lambda>(i, j, n). (i, j)) (names v))"
    and "node_at pg a = Some input"
    and "closest (\<lambda>e. marker \<in> set (classes e)) pg a = Some row"
    and "\<forall>(i, j, n)\<in>set (names (fvalue input)). node_at pg (row @ [i, j]) \<noteq> None"
  shows "snd (onNameChange marker names pg a) = None \<and>
    (\<forall>(i, j, n)\<in>set (names (fvalue input)).
       \<exists>f. node_at pg (row @ [i, j]) = Some f \<and>
           node_at (fst (onNameChange marker names pg a)) (row @ [i, j]) = Some (setName n f)) \<and>
    ((fst (onNameChange marker names pg a) = pg) =
       (\<forall>(i, j, n)\<in>set (names (fvalue input)).
          \<exists>f. node_at pg (row @ [i, j]) = Some f \<and> fname f = n))"
proof -
  let ?sts = "names (fvalue input)"
  have run: "onNameChange marker names pg a = assignNames row ?sts pg"
    using assms(2,3) by (simp add: onNameChange_def)
  note all = assignNames_all[OF assms(1)[of "fvalue input"] assms(4)]
  from all have ok: "snd (assignNames row ?sts pg) = None" by blast
  have each: "\<exists>f. node_at pg (row @ [i, j]) = Some f \<and>
      node_at (fst (assignNames row ?sts pg)) (row @ [i, j]) = Some (setName n f)"
    if mem: "(i, j, n) \<in> set ?sts" for i j n
  proof -
    from assms(4) mem obtain f where f: "node_at pg (row @ [i, j]) = Some f" by auto
    from all mem have "node_at (fst (assignNames row ?sts pg)) (row @ [i, j]) =
        map_option (setName n) (node_at pg (row @ [i, j]))" by blast
    with f show ?thesis by simp
  qed
  have same: "(fst (assignNames row ?sts pg) = pg) =
      (\<forall>(i, j, n)\<in>set ?sts. \<exists>f. node_at pg (row @ [i, j]) = Some f \<and> fname f = n)"
  proof
    assume unchanged: "fst (assignNames row ?sts pg) = pg"
    have "\<exists>f. node_at pg (row @ [i, j]) = Some f \<and> fname f = n" if mem: "(i, j, n) \<in> set ?sts" for i j n
    proof -
      from each[OF mem] unchanged obtain f where
        "node_at pg (row @ [i, j]) = Some f" "f = setName n f" by auto
      with fname_setName[of n f] show ?thesis by auto
    qed
    then show "\<forall>(i, j, n)\<in>set ?sts. \<exists>f. node_at pg (row @ [i, j]) = Some f \<and> fname f = n"
      by auto
  next
    assume "\<forall>(i, j, n)\<in>set ?sts. \<exists>f. node_at pg (row @ [i, j]) = Some f \<and> fname f = n"
    from assignNames_same[OF this] show "fst (assignNames row ?sts pg) = pg" by simp
  qed
  from ok each same show ?thesis unfolding run by auto
qed

lemma distinct_abilityNames: "distinct (map (\<lambda>(i, j, n). (i, j)) (abilityNames v))"
  by (simp add: abilityNames_def)

lemma distinct_skillNames: "distinct (map (\<lambda>(i, j, n). (i, j)) (skillNames v))"
  by (simp add: skillNames_def)

lemma distinct_weaponNames: "distinct (map (\<lambda>(i, j, n). (i, j)) (weaponNames v))"
  by (simp add: weaponNames_def)

section \<open>The claims\<close>

text \<open>
  Claim C1, amended. For every managed collection the patch binds the collection's key
  to the keyed map of the submitted rows as extended by the loop over the persisted
  keys. In that map an entry \<open>"-=" + K\<close> bound to null exists only for a key \<open>K\<close>
  that is persisted, not empty and absent from the keyed map of the submission. Every
  such \<open>K\<close> that is not itself spelled \<open>"-=" + K'\<close> for a persisted key \<open>K'\<close> has
  its sentinel bound to null and no entry of its own. The empty key is skipped by the
  guard of the loop and never gets a sentinel.
\<close>

theorem sentinel_for_vanished_key:
  assumes "updateObject expand object formData = Inr patch"
    and "formCollection c (expand formData) = Inr formRows"
    and "keyedCollection formRows = Inr keyed"
    and "persistedKeys c object = Inr ks"
  shows "\<exists>out. removeUnused ks keyed = Inr out \<and>
    map_of (own patch) (patchKey c) = Some (toValue out) \<and>
    (\<forall>K. map_of (own out) (''-='' @ K) = Some JNull \<longrightarrow>
       K \<in> set ks \<and> K \<noteq> [] \<and> \<not> ownKey (own keyed) K) \<and>
    (\<forall>K. K \<in> set ks \<and> K \<noteq> [] \<and> \<not> ownKey (own keyed) K \<and> (\<forall>K'\<in>set ks. K \<noteq> ''-='' @ K') \<longrightarrow>
       map_of (own out) (''-='' @ K) = Some JNull \<and>
       map_of (own out) K = None)"
proof -
  from patch_collection[OF assms(1), of c] assms(2-4)
  obtain out where run: "removeUnused ks keyed = Inr out"
    and held: "map_of (own patch) (patchKey c) = Some (toValue out)"
    by (auto simp: mergedCollection_Inr)
  from removeUnused_Inr[OF run] have out: "own out = addSentinels ks (own keyed)" by simp
  have only: "K \<in> set ks \<and> K \<noteq> [] \<and> \<not> ownKey (own keyed) K"
    if null: "map_of (own out) (''-='' @ K) = Some JNull" for K
  proof -
    have "map_of (own keyed) (''-='' @ K) \<noteq> Some JNull"
      using keyedCollection_values[OF assms(3), of "''-='' @ K" JNull] entityKey_JNull by auto
    with addSentinels_origin[OF null[unfolded out]] show ?thesis by auto
  qed
  have every: "map_of (own out) (''-='' @ K) = Some JNull \<and> map_of (own out) K = None"
    if K: "K \<in> set ks \<and> K \<noteq> [] \<and> \<not> ownKey (own keyed) K \<and> (\<forall>K'\<in>set ks. K \<noteq> ''-='' @ K')" for K
  proof
    from K show "map_of (own out) (''-='' @ K) = Some JNull"
      unfolding out by (intro addSentinels_emits) auto
    from K show "map_of (own out) K = None"
      unfolding out by (intro addSentinels_no_entry) auto
  qed
  from run held only every show ?thesis by blast
qed

text \<open>
  The amended claim C1 on the renaming submission: Climbing is persisted and no longer
  submitted, so the skills of the patch carry \<open>-=Climbing\<close> bound to null and no
  entry Climbing.
\<close>

theorem sentinel_for_vanished_key_witness:
  "updateObject expandObject sampleActor renameSubmission = Inr renamePatch \<and>
   persistedKeys Skills sampleActor = Inr [''Climbing'', ''Running''] \<and>
   removeUnused [''Climbing'', ''Running''] renameKeyedObject = Inr renameMerged \<and>
   map_of (own renamePatch) (patchKey Skills) = Some (toValue renameMerged) \<and>
   map_of (own renameMerged) (''-='' @ ''Climbing'') = Some JNull \<and>
   map_of (own renameMerged) ''Climbing'' = None"
proof -
  have h1: "updateObject expandObject sampleActor renameSubmission = Inr renamePatch"
    by code_simp
  have h2: "formCollection Skills (expandObject renameSubmission) = Inr (JPlain renameKeyed)"
    by code_simp
  have h3: "keyedCollection (JPlain renameKeyed) = Inr renameKeyedObject"
    by code_simp
  have h4: "persistedKeys Skills sampleActor = Inr [''Climbing'', ''Running'']"
    by code_simp
  have h5: "removeUnused [''Climbing'', ''Running''] renameKeyedObject = Inr renameMerged"
    by code_simp
  have pre: "''Climbing'' \<in> set [''Climbing'', ''Running''] \<and> ''Climbing'' \<noteq> [] \<and>
      \<not> ownKey (own renameKeyedObject) ''Climbing'' \<and>
      (\<forall>K'\<in>set [''Climbing'', ''Running'']. ''Climbing'' \<noteq> ''-='' @ K')"
    by (simp add: ownKey_def renameKeyedObject_def renameKeyed_def)
  from sentinel_for_vanished_key[OF h1 h2 h3 h4]
  obtain out where run: "removeUnused [''Climbing'', ''Running''] renameKeyedObject = Inr out"
    and held: "map_of (own renamePatch) (patchKey Skills) = Some (toValue out)"
    and every: "\<forall>K. K \<in> set [''Climbing'', ''Running''] \<and> K \<noteq> [] \<and>
        \<not> ownKey (own renameKeyedObject) K \<and>
        (\<forall>K'\<in>set [''Climbing'', ''Running'']. K \<noteq> ''-='' @ K') \<longrightarrow>
        map_of (own out) (''-='' @ K) = Some JNull \<and> map_of (own out) K = None"
    by (elim exE conjE)
  from run h5 have out: "out = renameMerged" by simp
  note sentinel = every[rule_format, OF pre, unfolded out]
  note bound = held[unfolded out]
  show ?thesis
    by (intro conjI h1 h4 h5 bound sentinel[THEN conjunct1] sentinel[THEN conjunct2])
qed

text \<open>
  Claim C1 as stated fails for the empty key: it is persisted and absent from the keyed
  map of the submission, and the patch has no sentinel for it.
\<close>

theorem sentinel_for_blank_key_counterexample:
  "persistedKeys Skills blankKeyActor = Inr ['''', ''Climbing''] \<and>
   andThen (formCollection Skills (expandObject climbingSubmission)) keyedCollection =
     Inr \<lparr>proto = ObjectPrototype, own =
       [(''Climbing'', JPlain [(''name'', JStr ''Climbing''), (''stat'', JStr ''Speed'')])]\<rparr> \<and>
   \<not> ownKey [(''Climbing'', JPlain [(''name'', JStr ''Climbing''), (''stat'', JStr ''Speed'')])] '''' \<and>
   updateObject expandObject blankKeyActor climbingSubmission =
     Inr \<lparr>proto = ObjectPrototype, own =
       [(''_id'', JStr ''a2''),
        (''data.skills'', JPlain [(''Climbing'', JPlain [(''name'', JStr ''Climbing''), (''stat'', JStr ''Speed'')])]),
        (''data.equipment.weapons'', JPlain []),
        (''data.abilities'', JPlain [])]\<rparr> \<and>
   map_of [(''Climbing'', JPlain [(''name'', JStr ''Climbing''), (''stat'', JStr ''Speed'')])] (''-='' @ '''') = None"
  by code_simp

text \<open>
  Claim C2 fails on the code for rows whose trimmed name is \<open>__proto__\<close>. The
  accumulator of the reduce is an object literal, so \<^verbatim>\<open>obj[name] = v\<close> with that name
  reaches the \<^verbatim>\<open>__proto__\<close> setter that the literal inherits: the row becomes the
  prototype of the map and the map gets no entry. After the two rows named
  \<open>" __proto__"\<close> and \<open>"__proto__ "\<close> the keyed map has the entry Climbing alone,
  where the claim has one entry \<open>__proto__\<close> holding the later row; the patch hands
  the rows of Climbing and the sentinel of Running to the store and neither of the two
  rows.
\<close>

theorem proto_named_rows_are_not_filed:
  "formCollection Skills (expandObject protoNameSubmission) = Inr (JPlain protoNameRows) \<and>
   entityKey (JPlain [(''name'', JStr '' __proto__''), (''stat'', JStr ''Might'')]) = Some ''__proto__'' \<and>
   entityKey (JPlain [(''name'', JStr ''__proto__ ''), (''stat'', JStr ''Speed'')]) = Some ''__proto__'' \<and>
   keyedCollection (JPlain protoNameRows) =
     Inr \<lparr>proto = Inherits ObjectPrototype [(''name'', JStr ''__proto__ ''), (''stat'', JStr ''Speed'')],
          own = [(''Climbing'', JPlain [(''name'', JStr ''Climbing'')])]\<rparr> \<and>
   map_of [(''Climbing'', JPlain [(''name'', JStr ''Climbing'')])] ''__proto__'' = None \<and>
   object_keys (JObj (Inherits ObjectPrototype [(''name'', JStr ''__proto__ ''), (''stat'', JStr ''Speed'')])
      [(''Climbing'', JPlain [(''name'', JStr ''Climbing'')]), (''-=Running'', JNull)]) =
     Inr [''Climbing'', ''-=Running''] \<and>
   updateObject expandObject sampleActor protoNameSubmission =
     Inr \<lparr>proto = ObjectPrototype, own =
       [(''_id'', JStr ''a1''),
        (''data.skills'',
         JObj (Inherits ObjectPrototype [(''name'', JStr ''__proto__ ''), (''stat'', JStr ''Speed'')])
           [(''Climbing'', JPlain [(''name'', JStr ''Climbing'')]), (''-=Running'', JNull)]),
        (''data.equipment.weapons'', JPlain [(''-=Sword'', JNull)]),
        (''data.abilities'', JPlain [])]\<rparr>"
  by code_simp

text \<open>
  Claim C3, amended. A submitted row whose name is empty after trimming is not left
  out: the keyed map of its collection has the empty key, bound to the last such row,
  and the collection map of the patch carries that entry unchanged. Nothing in
  \<open>formDataReduceFunction\<close> tests the trimmed name; only the loop over the persisted
  keys skips the empty key.
\<close>

theorem blank_name_is_filed:
  assumes "updateObject expand object formData = Inr patch"
    and "formCollection c (expand formData) = Inr formRows"
    and "object_values formRows = Inr rows"
    and "keyedCollection formRows = Inr keyed"
    and "persistedKeys c object = Inr ks"
    and "v \<in> set rows"
    and "js_get v ''name'' = Inr (JStr s)"
    and "trim s = []"
  shows "\<exists>out. removeUnused ks keyed = Inr out \<and>
    map_of (own keyed) [] = Some (last (filter (\<lambda>r. entityKey r = Some []) rows)) \<and>
    map_of (own patch) (patchKey c) = Some (toValue out) \<and>
    map_of (own out) [] = map_of (own keyed) []"
proof -
  from entityKey_trim[OF assms(7)] assms(8) have "entityKey v = Some []" by simp
  with assms(6) have "filter (\<lambda>r. entityKey r = Some []) rows \<noteq> []"
    by (auto simp: filter_empty_conv)
  with keyedCollection_lookup[OF assms(3,4), of "[]"]
  have filed: "map_of (own keyed) [] = Some (last (filter (\<lambda>r. entityKey r = Some []) rows))"
    by (simp split: list.splits)
  from patch_collection[OF assms(1), of c] assms(2,4,5)
  obtain out where run: "removeUnused ks keyed = Inr out"
    and held: "map_of (own patch) (patchKey c) = Some (toValue out)"
    by (auto simp: mergedCollection_Inr)
  from removeUnused_Inr[OF run] have out: "own out = addSentinels ks (own keyed)" by simp
  from filed addSentinels_keeps_entities[OF _ startsWith_Nil, of "own keyed" _ ks]
  have "map_of (own out) [] = map_of (own keyed) []" unfolding out by simp
  with run filed held show ?thesis by blast
qed

text \<open>
  The amended claim C3 on the submission with a blank skill name, for the sample
  character.
\<close>

theorem blank_name_is_filed_witness:
  "updateObject expandObject sampleActor blankNameSubmission = Inr blankNamePatch \<and>
   keyedCollection (JPlain blankNameRows) = Inr blankNameKeyed \<and>
   js_get (JPlain [(''name'', JStr ''  ''), (''stat'', JStr ''Intellect'')]) ''name'' = Inr (JStr ''  '') \<and>
   trim ''  '' = [] \<and>
   removeUnused [''Climbing'', ''Running''] blankNameKeyed = Inr blankNameMerged \<and>
   map_of (own blankNameKeyed) [] = Some (JPlain [(''name'', JStr ''  ''), (''stat'', JStr ''Intellect'')]) \<and>
   map_of (own blankNamePatch) (patchKey Skills) = Some (toValue blankNameMerged) \<and>
   map_of (own blankNameMerged) [] = map_of (own blankNameKeyed) []"
proof -
  let ?v = "JPlain [(''name'', JStr ''  ''), (''stat'', JStr ''Intellect'')]"
  let ?rows = "[JPlain [(''name'', JStr ''Climbing''), (''stat'', JStr ''Speed'')], ?v]"
  have h1: "updateObject expandObject sampleActor blankNameSubmission = Inr blankNamePatch"
    by code_simp
  have h2: "formCollection Skills (expandObject blankNameSubmission) = Inr (JPlain blankNameRows)"
    by code_simp
  have h3: "object_values (JPlain blankNameRows) = Inr ?rows"
    by (simp add: blankNameRows_def)
  have h4: "keyedCollection (JPlain blankNameRows) = Inr blankNameKeyed"
    by code_simp
  have h5: "persistedKeys Skills sampleActor = Inr [''Climbing'', ''Running'']"
    by code_simp
  have h6: "?v \<in> set ?rows" by simp
  have h7: "js_get ?v ''name'' = Inr (JStr ''  '')" by simp
  have h8: "trim ''  '' = []" by code_simp
  have h9: "removeUnused [''Climbing'', ''Running''] blankNameKeyed = Inr blankNameMerged"
    by code_simp
  have e1: "entityKey (JPlain [(''name'', JStr ''Climbing''), (''stat'', JStr ''Speed'')]) = Some ''Climbing''"
    and e2: "entityKey ?v = Some []"
    by code_simp+
  have "last (filter (\<lambda>r. entityKey r = Some []) ?rows) = ?v"
    using e1 e2 by simp
  then have pick: "Some (last (filter (\<lambda>r. entityKey r = Some []) ?rows)) = Some ?v"
    by (rule arg_cong)
  from blank_name_is_filed[OF h1 h2 h3 h4 h5 h6 h7 h8]
  obtain out where run: "removeUnused [''Climbing'', ''Running''] blankNameKeyed = Inr out"
    and filed: "map_of (own blankNameKeyed) [] =
        Some (last (filter (\<lambda>r. entityKey r = Some []) ?rows))"
    and held: "map_of (own blankNamePatch) (patchKey Skills) = Some (toValue out)"
    and kept: "map_of (own out) [] = map_of (own blankNameKeyed) []"
    by (elim exE conjE)
  from run h9 have out: "out = blankNameMerged" by simp
  note filed' = trans[OF filed pick]
  show ?thesis
    by (intro conjI h1 h4 h7 h8 h9 filed' held[unfolded out] kept[unfolded out])
qed

text \<open>
  Claim C3 as stated fails on that submission: the keyed map has the empty key, and the
  skills of the patch hold the blank row under it.
\<close>

theorem blank_name_excluded_counterexample:
  "formCollection Skills (expandObject blankNameSubmission) = Inr (JPlain blankNameRows) \<and>
   keyedCollection (JPlain blankNameRows) = Inr blankNameKeyed \<and>
   ownKey (own blankNameKeyed) [] \<and>
   updateObject expandObject sampleActor blankNameSubmission = Inr blankNamePatch \<and>
   map_of (own blankNamePatch) ''data.skills'' = Some (JPlain
     [(''Climbing'', JPlain [(''name'', JStr ''Climbing''), (''stat'', JStr ''Speed'')]),
      ([], JPlain [(''name'', JStr ''  ''), (''stat'', JStr ''Intellect'')]),
      (''-=Running'', JNull)])"
  by code_simp

text \<open>
  Claim C4, amended. The patch binds the three collection keys to the finished
  collection maps and holds no raw dotted path from the managed namespaces
  \<open>data.skills\<close>, \<open>data.equipment.weapons\<close> and \<open>data.abilities\<close>. The identity of
  the document stands under \<open>_id\<close> when the raw submission has no \<open>_id\<close> of its own;
  a raw \<open>_id\<close> is kept like every other raw key, with its raw value, in place of the
  identity. Every raw key that passes the filter of the re-combination and is not
  \<open>__proto__\<close> is in the patch with exactly its raw value, and the patch holds no
  further key of that kind. The raw submission is an object: its keys are pairwise
  different. Nothing is said here of a raw key that begins with a collection path and
  is neither that path nor a dotted path under it, nor of a raw key \<open>__proto__\<close>.
\<close>

theorem patch_frame:
  assumes "updateObject expand object formData = Inr patch"
    and "distinct (map fst formData)"
    and "mergedCollection Skills (expand formData) object = Inr skills"
    and "mergedCollection Weapons (expand formData) object = Inr weapons"
    and "mergedCollection Abilities (expand formData) object = Inr abilities"
  shows "map_of (own patch) ''data.skills'' = Some (toValue skills) \<and>
    map_of (own patch) ''data.equipment.weapons'' = Some (toValue weapons) \<and>
    map_of (own patch) ''data.abilities'' = Some (toValue abilities) \<and>
    (\<forall>k. inNamespace k \<and> k \<noteq> ''data.skills'' \<and> k \<noteq> ''data.equipment.weapons'' \<and>
         k \<noteq> ''data.abilities'' \<longrightarrow> map_of (own patch) k = None) \<and>
    (\<forall>k v. \<not> managed k \<and> k \<noteq> ''__proto__'' \<and> map_of formData k = Some v \<longrightarrow>
         map_of (own patch) k = Some v) \<and>
    (map_of formData ''_id'' = None \<longrightarrow> map_of (own patch) ''_id'' = Some (actor_id object)) \<and>
    (\<forall>k. \<not> managed k \<and> k \<noteq> ''_id'' \<and> k \<noteq> ''__proto__'' \<and> map_of formData k = None \<longrightarrow>
         map_of (own patch) k = None)"
proof -
  from assms(1,3-5) have patch: "patch = recombine (actor_id object) skills weapons abilities formData"
    unfolding updateObject_Inr by simp
  have look: "map_of (own patch) k =
     (if managed k
      then map_of [(''data.skills'', toValue skills), (''data.equipment.weapons'', toValue weapons),
                   (''data.abilities'', toValue abilities)] k
      else (case map_of formData k of
              Some v \<Rightarrow> Some v
            | None \<Rightarrow> if k = ''_id'' then Some (actor_id object) else None))"
    if "k \<noteq> ''__proto__''" for k
    unfolding patch by (rule recombine_lookup[OF assms(2) that])
  have a: "map_of (own patch) ''data.skills'' = Some (toValue skills)"
    "map_of (own patch) ''data.equipment.weapons'' = Some (toValue weapons)"
    "map_of (own patch) ''data.abilities'' = Some (toValue abilities)"
    unfolding patch by (rule recombine_collection)+
  have b: "map_of (own patch) k = None"
    if k: "inNamespace k \<and> k \<noteq> ''data.skills'' \<and> k \<noteq> ''data.equipment.weapons'' \<and> k \<noteq> ''data.abilities''"
    for k
  proof -
    from k have m: "managed k" by (simp add: inNamespace_managed)
    with managed_keys(5) have "k \<noteq> ''__proto__''" by auto
    from look[OF this] m k show ?thesis by simp
  qed
  have c: "map_of (own patch) k = Some v"
    if "\<not> managed k \<and> k \<noteq> ''__proto__'' \<and> map_of formData k = Some v" for k v
    using that by (simp add: look)
  have d: "map_of (own patch) ''_id'' = Some (actor_id object)" if "map_of formData ''_id'' = None"
    using that managed_keys(4) by (simp add: look)
  have e: "map_of (own patch) k = None"
    if "\<not> managed k \<and> k \<noteq> ''_id'' \<and> k \<noteq> ''__proto__'' \<and> map_of formData k = None" for k
    using that by (simp add: look)
  from a b c d e show ?thesis by blast
qed

text \<open>
  The amended claim C4 on the renaming submission: the raw skill path is gone, the raw
  \<open>name\<close> is kept, and \<open>_id\<close> is the identity of the sample character.
\<close>

theorem patch_frame_witness:
  "updateObject expandObject sampleActor renameSubmission = Inr renamePatch \<and>
   distinct (map fst renameSubmission) \<and>
   map_of (own renamePatch) ''data.skills'' = Some (toValue renameMerged) \<and>
   map_of (own renamePatch) ''data.skills.Climb.name'' = None \<and>
   map_of (own renamePatch) ''name'' = Some (JStr ''Thorn'') \<and>
   map_of (own renamePatch) ''_id'' = Some (actor_id sampleActor)"
proof -
  have h1: "updateObject expandObject sampleActor renameSubmission = Inr renamePatch"
    by code_simp
  have h2: "distinct (map fst renameSubmission)"
    by (simp add: renameSubmission_def)
  have h3: "mergedCollection Skills (expandObject renameSubmission) sampleActor = Inr renameMerged"
    by code_simp
  have h4: "mergedCollection Weapons (expandObject renameSubmission) sampleActor =
      Inr \<lparr>proto = ObjectPrototype, own = [(''Sword'', JPlain [(''name'', JStr ''Sword'')])]\<rparr>"
    by code_simp
  have h5: "mergedCollection Abilities (expandObject renameSubmission) sampleActor =
      Inr \<lparr>proto = ObjectPrototype, own = []\<rparr>"
    by code_simp
  have k1: "inNamespace ''data.skills.Climb.name'' \<and> ''data.skills.Climb.name'' \<noteq> ''data.skills'' \<and>
      ''data.skills.Climb.name'' \<noteq> ''data.equipment.weapons'' \<and>
      ''data.skills.Climb.name'' \<noteq> ''data.abilities''"
    by (simp add: inNamespace_def startsWith_def)
  have k2: "\<not> managed ''name'' \<and> ''name'' \<noteq> ''__proto__'' \<and>
      map_of renameSubmission ''name'' = Some (JStr ''Thorn'')"
    by (simp add: managed_def startsWith_def renameSubmission_def)
  have k3: "map_of renameSubmission ''_id'' = None"
    by (simp add: renameSubmission_def)
  note frame = patch_frame[OF h1 h2 h3 h4 h5]
  from frame have a: "map_of (own renamePatch) ''data.skills'' = Some (toValue renameMerged)"
    by (rule conjunct1)
  from frame have "\<forall>k. inNamespace k \<and> k \<noteq> ''data.skills'' \<and> k \<noteq> ''data.equipment.weapons'' \<and>
         k \<noteq> ''data.abilities'' \<longrightarrow> map_of (own renamePatch) k = None"
    by (elim conjE)
  from this[rule_format, OF k1] have b: "map_of (own renamePatch) ''data.skills.Climb.name'' = None" .
  from frame have "\<forall>k v. \<not> managed k \<and> k \<noteq> ''__proto__'' \<and> map_of renameSubmission k = Some v \<longrightarrow>
      map_of (own renamePatch) k = Some v"
    by (elim conjE)
  from this[rule_format, OF k2] have c: "map_of (own renamePatch) ''name'' = Some (JStr ''Thorn'')" .
  from frame have "map_of renameSubmission ''_id'' = None \<longrightarrow>
      map_of (own renamePatch) ''_id'' = Some (actor_id sampleActor)"
    by (elim conjE)
  from this[rule_format, OF k3] have d: "map_of (own renamePatch) ''_id'' = Some (actor_id sampleActor)" .
  from h1 h2 a b c d show ?thesis by (intro conjI)
qed

text \<open>
  Claim C4 as stated fails on a raw submission with a field \<open>_id\<close>: the raw entry
  passes the filter and is assigned over the identity that the object literal starts
  with, so the patch does not contain the identity of the document.
\<close>

theorem raw_id_replaces_identity_counterexample:
  "actor_id sampleActor = JStr ''a1'' \<and>
   updateObject expandObject sampleActor idSubmission =
     Inr \<lparr>proto = ObjectPrototype, own =
       [(''_id'', JStr ''other''),
        (''data.skills'', JPlain [(''-=Climbing'', JNull), (''-=Running'', JNull)]),
        (''data.equipment.weapons'', JPlain [(''-=Sword'', JNull)]),
        (''data.abilities'', JPlain []),
        (''data.level'', JNum 3)]\<rparr> \<and>
   map_of [(''_id'', JStr ''other''),
          (''data.skills'', JPlain [(''-=Climbing'', JNull), (''-=Running'', JNull)]),
          (''data.equipment.weapons'', JPlain [(''-=Sword'', JNull)]),
          (''data.abilities'', JPlain []),
          (''data.level'', JNum 3)] ''_id'' = Some (JStr ''other'') \<and>
   JStr ''other'' \<noteq> actor_id sampleActor"
  by code_simp

text \<open>
  Claim C5, amended. Each of the three blur handlers, run on a row that has the cells
  and fields its statements address, ends normally and leaves every addressed field
  named \<open><collection path>.<value>.<role>\<close>, where the value is that of the element
  that lost focus, whatever it is. The page is unchanged exactly when the fields
  already carry these names, which is the case of an unchanged name. No statement tests
  the value: an empty value gives names with an empty key segment.
\<close>

theorem rebinder_rewrites_paths:
  assumes "(handler, marker, names) \<in> set
      [(onAbilityNameChange, ''ability'', abilityNames),
       (onSkillNameChange, ''skill'', skillNames),
       (onWeaponNameChange, ''weapon'', weaponNames)]"
    and "node_at pg a = Some input"
    and "closest (\<lambda>e. marker \<in> set (classes e)) pg a = Some row"
    and "\<forall>(i, j, n)\<in>set (names (fvalue input)). node_at pg (row @ [i, j]) \<noteq> None"
  shows "snd (handler pg a) = None \<and>
    (\<forall>(i, j, n)\<in>set (names (fvalue input)).
       \<exists>f. node_at pg (row @ [i, j]) = Some f \<and>
           node_at (fst (handler pg a)) (row @ [i, j]) = Some (setName n f)) \<and>
    ((fst (handler pg a) = pg) =
       (\<forall>(i, j, n)\<in>set (names (fvalue input)).
          \<exists>f. node_at pg (row @ [i, j]) = Some f \<and> fname f = n))"
proof -
  from assms(1) consider
      (ability) "handler = onNameChange ''ability'' abilityNames" "marker = ''ability''" "names = abilityNames"
    | (skill) "handler = onNameChange ''skill'' skillNames" "marker = ''skill''" "names = skillNames"
    | (weapon) "handler = onNameChange ''weapon'' weaponNames" "marker = ''weapon''" "names = weaponNames"
    by (auto simp: onAbilityNameChange_def onSkillNameChange_def onWeaponNameChange_def)
  then show ?thesis
  proof cases
    case ability
    with onNameChange_rewrites[of abilityNames pg a input "''ability''" row, OF distinct_abilityNames]
      assms(2-4) show ?thesis by simp
  next
    case skill
    with onNameChange_rewrites[of skillNames pg a input "''skill''" row, OF distinct_skillNames]
      assms(2-4) show ?thesis by simp
  next
    case weapon
    with onNameChange_rewrites[of weaponNames pg a input "''weapon''" row, OF distinct_weaponNames]
      assms(2-4) show ?thesis by simp
  qed
qed

text \<open>
  The amended claim C5 on the sample page, where the name is unchanged and so is the
  page, and on the page with the cleared name, where the stat field is renamed to
  \<open>data.skills..stat\<close>.
\<close>

theorem rebinder_rewrites_paths_witness:
  "node_at samplePage [0, 1, 0, 0, 0] = Some (field ''data.skills.Climbing.name'' ''Climbing'') \<and>
   closest (\<lambda>e. ''skill'' \<in> set (classes e)) samplePage [0, 1, 0, 0, 0] = Some [0, 1, 0] \<and>
   snd (onSkillNameChange samplePage [0, 1, 0, 0, 0]) = None \<and>
   fst (onSkillNameChange samplePage [0, 1, 0, 0, 0]) = samplePage \<and>
   node_at clearedPage [0, 1, 0, 0, 0] = Some (field ''data.skills.Climbing.name'' []) \<and>
   snd (onSkillNameChange clearedPage [0, 1, 0, 0, 0]) = None \<and>
   node_at (fst (onSkillNameChange clearedPage [0, 1, 0, 0, 0])) [0, 1, 0, 1, 0] =
     Some (field ''data.skills..stat'' ''Speed'')"
proof -
  let ?input = "field ''data.skills.Climbing.name'' ''Climbing''"
  let ?cleared = "field ''data.skills.Climbing.name'' []"
  have h1: "(onSkillNameChange, ''skill'', skillNames) \<in> set
      [(onAbilityNameChange, ''ability'', abilityNames),
       (onSkillNameChange, ''skill'', skillNames),
       (onWeaponNameChange, ''weapon'', weaponNames)]"
    by simp
  have h2: "node_at samplePage [0, 1, 0, 0, 0] = Some ?input" by code_simp
  have h3: "closest (\<lambda>e. ''skill'' \<in> set (classes e)) samplePage [0, 1, 0, 0, 0] = Some [0, 1, 0]"
    by code_simp
  have v: "fvalue ?input = ''Climbing''" "fvalue ?cleared = []" by (simp_all add: field_def)
  have row: "node_at samplePage [0, 1, 0] = Some (skillRow ''Climbing'' ''Climbing'')" by code_simp
  have fields: "node_at samplePage ([0, 1, 0] @ q) = node_at (skillRow ''Climbing'' ''Climbing'') q" for q
    using row by (simp only: node_at_append option.case)
  have h4: "\<forall>(i, j, n)\<in>set (skillNames (fvalue ?input)). node_at samplePage ([0, 1, 0] @ [i, j]) \<noteq> None"
    unfolding v fields by (simp add: skillNames_def skillRow_def cell_def)
  have same: "\<forall>(i, j, n)\<in>set (skillNames (fvalue ?input)).
      \<exists>f. node_at samplePage ([0, 1, 0] @ [i, j]) = Some f \<and> fname f = n"
    unfolding v fields by (simp add: skillNames_def skillRow_def cell_def field_def)
  from rebinder_rewrites_paths[OF h1 h2 h3 h4] same
  have unchanged: "snd (onSkillNameChange samplePage [0, 1, 0, 0, 0]) = None"
    "fst (onSkillNameChange samplePage [0, 1, 0, 0, 0]) = samplePage"
    by blast+
  have g2: "node_at clearedPage [0, 1, 0, 0, 0] = Some ?cleared" by code_simp
  have g3: "closest (\<lambda>e. ''skill'' \<in> set (classes e)) clearedPage [0, 1, 0, 0, 0] = Some [0, 1, 0]"
    by code_simp
  have crow: "node_at clearedPage [0, 1, 0] = Some (skillRow ''Climbing'' [])" by code_simp
  have cfields: "node_at clearedPage ([0, 1, 0] @ q) = node_at (skillRow ''Climbing'' []) q" for q
    using crow by (simp only: node_at_append option.case)
  have g4: "\<forall>(i, j, n)\<in>set (skillNames (fvalue ?cleared)). node_at clearedPage ([0, 1, 0] @ [i, j]) \<noteq> None"
    unfolding v cfields by (simp add: skillNames_def skillRow_def cell_def)
  have stat: "(1, 0, ''data.skills..stat'') \<in> set (skillNames (fvalue ?cleared))"
    unfolding v by (simp add: skillNames_def)
  have old: "node_at clearedPage ([0, 1, 0] @ [1, 0]) = Some (field ''data.skills.Climbing.stat'' ''Speed'')"
    unfolding cfields by (simp add: skillRow_def cell_def)
  note cleared = rebinder_rewrites_paths[OF h1 g2 g3 g4]
  from cleared have c1: "snd (onSkillNameChange clearedPage [0, 1, 0, 0, 0]) = None" by blast
  from cleared stat have "\<exists>f. node_at clearedPage ([0, 1, 0] @ [1, 0]) = Some f \<and>
      node_at (fst (onSkillNameChange clearedPage [0, 1, 0, 0, 0])) ([0, 1, 0] @ [1, 0]) =
        Some (setName ''data.skills..stat'' f)"
    by blast
  with old have c2: "node_at (fst (onSkillNameChange clearedPage [0, 1, 0, 0, 0])) [0, 1, 0, 1, 0] =
      Some (field ''data.skills..stat'' ''Speed'')"
    by (auto simp del: node_at.simps simp: setName_def field_def)
  from h2 h3 unchanged g2 c1 c2 show ?thesis by (intro conjI)
qed

text \<open>
  Claim C5 as stated fails for an empty name: the handler changes the page, and the
  stat field of the row gets the name \<open>data.skills..stat\<close>.
\<close>

theorem empty_name_rewrites_paths_counterexample:
  "node_at clearedPage [0, 1, 0, 0, 0] = Some (field ''data.skills.Climbing.name'' []) \<and>
   fvalue (field ''data.skills.Climbing.name'' []) = [] \<and>
   node_at clearedPage [0, 1, 0, 1, 0] = Some (field ''data.skills.Climbing.stat'' ''Speed'') \<and>
   snd (onSkillNameChange clearedPage [0, 1, 0, 0, 0]) = None \<and>
   node_at (fst (onSkillNameChange clearedPage [0, 1, 0, 0, 0])) [0, 1, 0, 1, 0] =
     Some (field ''data.skills..stat'' ''Speed'') \<and>
   fst (onSkillNameChange clearedPage [0, 1, 0, 0, 0]) \<noteq> clearedPage"
  by code_simp

text \<open>
  Claim C6. On a click whose action is \<open>create\<close>, inside a table, the handler ends
  with the configuration error (the \<open>Error\<close> ``No row template found'') exactly when
  the table has no \<open>template\<close> descendant. Whenever it ends with an exception the
  sheet is as it was. When it ends normally, the first table body has its former
  children followed by the children of the template's content, and
  \<open>_onSubmit\<close> has not been called.
\<close>

theorem create_needs_template:
  assumes "node_at (page sh) a = Some target"
    and "action target = Some ''create''"
    and "closest (\<lambda>e. tag e = ''table'') (page sh) a = Some t"
    and "node_at (page sh) t = Some table"
  shows "((\<exists>msg. snd (onClickControl control sh a) = Some (Error msg)) =
          (\<forall>q n. q \<noteq> [] \<and> node_at table q = Some n \<longrightarrow> tag n \<noteq> ''template'')) \<and>
    (snd (onClickControl control sh a) \<noteq> None \<longrightarrow> fst (onClickControl control sh a) = sh) \<and>
    (snd (onClickControl control sh a) = None \<longrightarrow>
       (\<exists>tp template b body body'.
          firstByTagName ''template'' table = Some tp \<and> node_at table tp = Some template \<and>
          firstByTagName ''tbody'' table = Some b \<and> node_at (page sh) (t @ b) = Some body \<and>
          node_at (page (fst (onClickControl control sh a))) (t @ b) = Some body' \<and>
          children body' = children body @ content template \<and>
          submits (fst (onClickControl control sh a)) = submits sh))"
proof (cases "firstByTagName ''template'' table")
  case None
  with assms have "onClickControl control sh a =
      (sh, Some (Error (''No row template found in '' @ control @ '' table'')))"
    by (simp add: onClickControl_def)
  moreover from None have "\<forall>q n. q \<noteq> [] \<and> node_at table q = Some n \<longrightarrow> tag n \<noteq> ''template''"
    by (simp add: no_template_iff)
  ultimately show ?thesis by simp
next
  case (Some tp)
  then have some: "\<not> (\<forall>q n. q \<noteq> [] \<and> node_at table q = Some n \<longrightarrow> tag n \<noteq> ''template'')"
    using no_template_iff[of "''template''" table] by simp
  from firstByTagName_node[OF Some] obtain template where template: "node_at table tp = Some template"
    by blast
  show ?thesis
  proof (cases "firstByTagName ''tbody'' table")
    case None
    with assms Some template have "onClickControl control sh a = (sh, Some TypeError)"
      by (simp add: onClickControl_def)
    with some show ?thesis by simp
  next
    case b: (Some b)
    from firstByTagName_node[OF b] obtain body where "node_at table b = Some body" by blast
    with assms(4) have body: "node_at (page sh) (t @ b) = Some body"
      by (simp add: node_at_append)
    from assms Some template b have run: "onClickControl control sh a =
        (sh\<lparr>page := modify_at (t @ b) (appendChild (content template)) (page sh)\<rparr>, None)"
      by (simp add: onClickControl_def)
    have "node_at (page (fst (onClickControl control sh a))) (t @ b) =
        Some (appendChild (content template) body)"
      unfolding run using node_at_modify_at[OF body] by simp
    moreover have "children (appendChild (content template) body) = children body @ content template"
      by (rule children_appendChild)
    moreover have "submits (fst (onClickControl control sh a)) = submits sh"
      unfolding run by simp
    moreover have "snd (onClickControl control sh a) = None"
      unfolding run by simp
    ultimately show ?thesis using some Some template b body by auto
  qed
qed

text \<open>
  Claim C6 on the sample page, where the new row follows the row of Climbing, and on
  the page without a template, where the click ends with the error and changes
  nothing.
\<close>

theorem create_needs_template_witness:
  "node_at (page sampleSheet) [0, 2, 0] = Some (Element ''a'' [''skill-control''] (Some ''create'') [] [] [] []) \<and>
   closest (\<lambda>e. tag e = ''table'') (page sampleSheet) [0, 2, 0] = Some [0] \<and>
   node_at (page sampleSheet) [0] = Some sampleTable \<and>
   snd (onClickControl ''skill'' sampleSheet [0, 2, 0]) = None \<and>
   (\<exists>body'. node_at (page (fst (onClickControl ''skill'' sampleSheet [0, 2, 0]))) [0, 1] = Some body' \<and>
      children body' = [skillRow ''Climbing'' ''Climbing'', skillRow [] []]) \<and>
   submits (fst (onClickControl ''skill'' sampleSheet [0, 2, 0])) = submits sampleSheet \<and>
   node_at (page bareSheet) [0] = Some bareTable \<and>
   firstByTagName ''template'' bareTable = None \<and>
   (\<exists>msg. snd (onClickControl ''skill'' bareSheet [0, 1, 0]) = Some (Error msg)) \<and>
   fst (onClickControl ''skill'' bareSheet [0, 1, 0]) = bareSheet"
proof -
  let ?a = "Element ''a'' [''skill-control''] (Some ''create'') [] [] [] []"
  have g1: "node_at (page bareSheet) [0, 1, 0] = Some ?a" by code_simp
  have g3: "closest (\<lambda>e. tag e = ''table'') (page bareSheet) [0, 1, 0] = Some [0]" by code_simp
  have g4: "node_at (page bareSheet) [0] = Some bareTable" by code_simp
  have g5: "firstByTagName ''template'' bareTable = None" by code_simp
  have h1: "node_at (page sampleSheet) [0, 2, 0] = Some ?a" by code_simp
  have h2: "action ?a = Some ''create''" by simp
  have h3: "closest (\<lambda>e. tag e = ''table'') (page sampleSheet) [0, 2, 0] = Some [0]" by code_simp
  have h4: "node_at (page sampleSheet) [0] = Some sampleTable" by code_simp
  have ok: "snd (onClickControl ''skill'' sampleSheet [0, 2, 0]) = None" by code_simp
  have tp: "firstByTagName ''template'' sampleTable = Some [0]" by code_simp
  have template: "node_at sampleTable [0] = Some rowTemplate" by code_simp
  have b: "firstByTagName ''tbody'' sampleTable = Some [1]" by code_simp
  have body: "node_at (page sampleSheet) [0, 1] =
      Some (Element ''tbody'' [] None [] [] [skillRow ''Climbing'' ''Climbing''] [])" by code_simp
  have fragment: "content rowTemplate = [skillRow [] []]" by (simp add: rowTemplate_def)
  from create_needs_template[OF h1 h2 h3 h4, of "''skill''"] ok
  obtain tp' template' b' body0 body' where
    "firstByTagName ''template'' sampleTable = Some tp'" "node_at sampleTable tp' = Some template'"
    "firstByTagName ''tbody'' sampleTable = Some b'" "node_at (page sampleSheet) ([0] @ b') = Some body0"
    "node_at (page (fst (onClickControl ''skill'' sampleSheet [0, 2, 0]))) ([0] @ b') = Some body'"
    "children body' = children body0 @ content template'"
    "submits (fst (onClickControl ''skill'' sampleSheet [0, 2, 0])) = submits sampleSheet"
    by blast
  with tp template b body fragment
  have "node_at (page (fst (onClickControl ''skill'' sampleSheet [0, 2, 0]))) [0, 1] = Some body' \<and>
      children body' = [skillRow ''Climbing'' ''Climbing'', skillRow [] []]"
    and "submits (fst (onClickControl ''skill'' sampleSheet [0, 2, 0])) = submits sampleSheet"
    by (auto simp del: node_at.simps)
  note good = this
  from g5 have "\<forall>q n. q \<noteq> [] \<and> node_at bareTable q = Some n \<longrightarrow> tag n \<noteq> ''template''"
    by (simp add: no_template_iff)
  with create_needs_template[OF g1 h2 g3 g4, of "''skill''"]
  have "\<exists>msg. snd (onClickControl ''skill'' bareSheet [0, 1, 0]) = Some (Error msg)"
    and "fst (onClickControl ''skill'' bareSheet [0, 1, 0]) = bareSheet"
    by auto
  with good g4 g5 h1 h3 h4 ok show ?thesis by blast
qed

text \<open>
  Claim C7. On a click whose action is \<open>delete\<close>, with a row located by the control's
  marker below the root, the handler ends normally, the located row is gone from the
  children of its parent (the other children keep their order), and \<open>_onSubmit\<close> has
  been called once in the same invocation. On a click whose action is \<open>create\<close>,
  \<open>_onSubmit\<close> is not called, whatever the outcome.
\<close>

theorem delete_submits_create_does_not:
  assumes "node_at (page sh) a = Some target"
  shows "(action target = Some ''delete'' \<and>
      closest (\<lambda>e. control \<in> set (classes e)) (page sh) a = Some r \<and> r \<noteq> [] \<longrightarrow>
        snd (onClickControl control sh a) = None \<and>
        submits (fst (onClickControl control sh a)) = Suc (submits sh) \<and>
        (\<exists>parent parent'.
           node_at (page sh) (butlast r) = Some parent \<and> last r < length (children parent) \<and>
           control \<in> set (classes (children parent ! last r)) \<and>
           node_at (page (fst (onClickControl control sh a))) (butlast r) = Some parent' \<and>
           children parent' = take (last r) (children parent) @ drop (Suc (last r)) (children parent))) \<and>
    (action target = Some ''create'' \<longrightarrow> submits (fst (onClickControl control sh a)) = submits sh)"
proof (intro conjI impI)
  assume del: "action target = Some ''delete'' \<and>
      closest (\<lambda>e. control \<in> set (classes e)) (page sh) a = Some r \<and> r \<noteq> []"
  with assms have run: "onClickControl control sh a =
      (sh\<lparr>page := modify_at (butlast r) (removeChild (last r)) (page sh),
          submits := Suc (submits sh)\<rparr>, None)"
    by (simp add: onClickControl_def)
  from del closest_node[of "\<lambda>e. control \<in> set (classes e)" "page sh" a r]
  obtain row where row: "node_at (page sh) r = Some row" "control \<in> set (classes row)" by blast
  from del have r: "r = butlast r @ [last r]" by simp
  from node_at_snoc[of "page sh" "butlast r" "last r" row] row(1) r
  obtain parent where parent: "node_at (page sh) (butlast r) = Some parent"
    "last r < length (children parent)" "children parent ! last r = row"
    by auto
  show "snd (onClickControl control sh a) = None" unfolding run by simp
  show "submits (fst (onClickControl control sh a)) = Suc (submits sh)" unfolding run by simp
  have "node_at (page (fst (onClickControl control sh a))) (butlast r) =
      Some (removeChild (last r) parent)"
    unfolding run using node_at_modify_at[OF parent(1)] by simp
  with parent row(2) children_removeChild[of "last r" parent]
  show "\<exists>parent parent'.
           node_at (page sh) (butlast r) = Some parent \<and> last r < length (children parent) \<and>
           control \<in> set (classes (children parent ! last r)) \<and>
           node_at (page (fst (onClickControl control sh a))) (butlast r) = Some parent' \<and>
           children parent' = take (last r) (children parent) @ drop (Suc (last r)) (children parent)"
    by blast
next
  assume "action target = Some ''create''"
  with assms show "submits (fst (onClickControl control sh a)) = submits sh"
    by (simp add: onClickControl_def split: option.splits prod.splits)
qed

text \<open>
  Claim C7 on the sample page: deleting the row of Climbing empties the table body and
  submits once.
\<close>

theorem delete_submits_create_does_not_witness:
  "node_at (page sampleSheet) [0, 1, 0, 5, 0] =
     Some (Element ''a'' [''skill-control''] (Some ''delete'') [] [] [] []) \<and>
   closest (\<lambda>e. ''skill'' \<in> set (classes e)) (page sampleSheet) [0, 1, 0, 5, 0] = Some [0, 1, 0] \<and>
   snd (onClickControl ''skill'' sampleSheet [0, 1, 0, 5, 0]) = None \<and>
   submits (fst (onClickControl ''skill'' sampleSheet [0, 1, 0, 5, 0])) = Suc (submits sampleSheet) \<and>
   (\<exists>parent'. node_at (page (fst (onClickControl ''skill'' sampleSheet [0, 1, 0, 5, 0]))) [0, 1] = Some parent' \<and>
      children parent' = [])"
proof -
  let ?a = "Element ''a'' [''skill-control''] (Some ''delete'') [] [] [] []"
  have h1: "node_at (page sampleSheet) [0, 1, 0, 5, 0] = Some ?a" by code_simp
  have h2: "closest (\<lambda>e. ''skill'' \<in> set (classes e)) (page sampleSheet) [0, 1, 0, 5, 0] = Some [0, 1, 0]"
    by code_simp
  have pre: "action ?a = Some ''delete'' \<and>
      closest (\<lambda>e. ''skill'' \<in> set (classes e)) (page sampleSheet) [0, 1, 0, 5, 0] = Some [0, 1, 0] \<and>
      [0, 1, 0] \<noteq> ([] :: nat list)"
    using h2 by simp
  have parent: "node_at (page sampleSheet) [0, 1] =
      Some (Element ''tbody'' [] None [] [] [skillRow ''Climbing'' ''Climbing''] [])" by code_simp
  from delete_submits_create_does_not[OF h1, of "''skill''" "[0, 1, 0]"] pre
  have "snd (onClickControl ''skill'' sampleSheet [0, 1, 0, 5, 0]) = None"
    and "submits (fst (onClickControl ''skill'' sampleSheet [0, 1, 0, 5, 0])) = Suc (submits sampleSheet)"
    and "\<exists>parent parent'.
           node_at (page sampleSheet) (butlast [0, 1, 0]) = Some parent \<and>
           node_at (page (fst (onClickControl ''skill'' sampleSheet [0, 1, 0, 5, 0]))) (butlast [0, 1, 0]) = Some parent' \<and>
           children parent' = take (last [0, 1, 0]) (children parent) @ drop (Suc (last [0, 1, 0])) (children parent)"
    by blast+
  with parent h1 h2 show ?thesis by (auto simp del: node_at.simps)
qed

text \<open>
  Claim C8. When the keyed map of a collection's submitted rows has the same keys and
  the same entities as the persisted collection, the loop over the persisted keys adds
  nothing: the patch binds the collection's key to the keyed map itself, which is the
  persisted collection as a map, and no key of it is bound to null. This holds
  collection by collection, hence for the three together.
\<close>

theorem unchanged_rows_give_no_sentinel:
  assumes "updateObject expand object formData = Inr patch"
    and "formCollection c (expand formData) = Inr formRows"
    and "keyedCollection formRows = Inr keyed"
    and "persistedCollection c object = Inr (JObj pr persisted)"
    and "map_of (own keyed) = map_of persisted"
  shows "map_of (own patch) (patchKey c) = Some (toValue keyed) \<and>
    removeUnused (map fst persisted) keyed = Inr keyed \<and>
    (\<forall>k. map_of (own keyed) k \<noteq> Some JNull)"
proof -
  have ks: "persistedKeys c object = Inr (map fst persisted)"
    using assms(4) by (simp add: persistedKeys_def andThen_def)
  from patch_collection[OF assms(1), of c] assms(2,3) ks
  obtain out where run: "removeUnused (map fst persisted) keyed = Inr out"
    and held: "map_of (own patch) (patchKey c) = Some (toValue out)"
    by (auto simp: mergedCollection_Inr)
  have "ownKey (own keyed) k" if "k \<in> set (map fst persisted)" for k
  proof -
    from that have "map_of persisted k \<noteq> None" by (simp add: map_of_eq_None_iff)
    with assms(5) show ?thesis by (simp add: ownKey_map_of)
  qed
  then have "addSentinels (map fst persisted) (own keyed) = own keyed"
    by (intro addSentinels_all_present) blast
  with removeUnused_Inr[OF run] have same: "out = keyed" by simp
  have "map_of (own keyed) k \<noteq> Some JNull" for k
    using keyedCollection_values[OF assms(3), of k JNull] entityKey_JNull by auto
  with held run same show ?thesis by blast
qed

text \<open>
  Claim C8 on the sample character and a submission that repeats its rows.
\<close>

theorem unchanged_rows_give_no_sentinel_witness:
  "updateObject expandObject sampleActor unchangedSubmission = Inr unchangedPatch \<and>
   keyedCollection (JPlain sampleSkills) = Inr sampleSkillsObject \<and>
   persistedCollection Skills sampleActor = Inr (JPlain sampleSkills) \<and>
   map_of (own unchangedPatch) (patchKey Skills) = Some (toValue sampleSkillsObject) \<and>
   removeUnused (map fst sampleSkills) sampleSkillsObject = Inr sampleSkillsObject"
proof -
  have h1: "updateObject expandObject sampleActor unchangedSubmission = Inr unchangedPatch"
    by code_simp
  have h2: "formCollection Skills (expandObject unchangedSubmission) = Inr (JPlain sampleSkills)"
    by code_simp
  have h3: "keyedCollection (JPlain sampleSkills) = Inr sampleSkillsObject"
    by code_simp
  have h4: "persistedCollection Skills sampleActor = Inr (JPlain sampleSkills)"
    by code_simp
  have h5: "map_of (own sampleSkillsObject) = map_of sampleSkills"
    by (simp add: sampleSkillsObject_def)
  note same = unchanged_rows_give_no_sentinel[OF h1 h2 h3 h4 h5]
  show ?thesis
    by (intro conjI h1 h3 h4 same[THEN conjunct1] same[THEN conjunct2, THEN conjunct1])
qed

text \<open>
  Claim C9. \<open>formDataReduceFunction\<close> reads \<open>v["name"].trim()\<close> unguarded: when some
  row of some managed collection of the expanded submission has no string
  \<open>name\<close>, \<open>_updateObject\<close> ends with a TypeError and builds no patch.
\<close>

theorem nameless_row_throws:
  assumes "formCollection c (expand formData) = Inr formRows"
    and "object_values formRows = Inr rows"
    and "v \<in> set rows"
    and "\<forall>s. js_get v ''name'' \<noteq> Inr (JStr s)"
  shows "updateObject expand object formData = Inl TypeError"
proof (cases "updateObject expand object formData")
  case (Inl e)
  with updateObject_error[OF Inl] show ?thesis by simp
next
  case (Inr patch)
  from updateObject_rows[OF Inr, of c] assms(1) obtain keyed
    where "keyedCollection formRows = Inr keyed" by auto
  with assms(2) have "reduce formDataReduceFunction rows emptyObject = Inr keyed"
    unfolding keyedCollection_Inr by simp
  from reduce_rows_named[OF this assms(3)] assms(4) show ?thesis
    by (auto simp: entityKey_def split: sum.splits jsval.splits)
qed

text \<open>
  Claim C9 on a submission whose skill row \<open>x\<close> has a stat and no name.
\<close>

theorem nameless_row_throws_witness:
  "formCollection Skills (expandObject namelessSubmission) =
     Inr (JPlain [(''Climbing'', JPlain [(''name'', JStr ''Climbing'')]), (''x'', JPlain [(''stat'', JStr ''Speed'')])]) \<and>
   js_get (JPlain [(''stat'', JStr ''Speed'')]) ''name'' = Inr JUndefined \<and>
   updateObject expandObject sampleActor namelessSubmission = Inl TypeError"
proof -
  let ?x = "JPlain [(''stat'', JStr ''Speed'')]"
  let ?rows = "JPlain [(''Climbing'', JPlain [(''name'', JStr ''Climbing'')]), (''x'', ?x)]"
  have h1: "formCollection Skills (expandObject namelessSubmission) = Inr ?rows"
    by code_simp
  have h2: "object_values ?rows = Inr [JPlain [(''name'', JStr ''Climbing'')], ?x]"
    by simp
  have h3: "?x \<in> set [JPlain [(''name'', JStr ''Climbing'')], ?x]" by simp
  have u: "js_get ?x ''name'' = Inr JUndefined" by simp
  have h4: "\<forall>s. js_get ?x ''name'' \<noteq> Inr (JStr s)" unfolding u by simp
  note thrown = nameless_row_throws[where expand = expandObject and formData = namelessSubmission
      and object = sampleActor, OF h1 h2 h3 h4]
  show ?thesis by (intro conjI h1 u thrown)
qed

text \<open>
  Claim C10 fails on the code where a persisted key is spelled like the sentinel of a
  persisted key before it. The character has the abilities \<open>A\<close> and \<open>-=A\<close> and the
  submission has no ability rows: the loop adds \<open>-=A\<close> for \<open>A\<close>, then finds
  \<open>-=A\<close> in the map it has just extended and adds nothing for it. The finished map
  is \<open>{"-=A": null}\<close>; the sentinel \<open>-=-=A\<close> of the second ability is missing.
\<close>

theorem shadowed_key_gets_no_sentinel:
  "formCollection Abilities (expandObject climbingSubmission) = Inr (JPlain []) \<and>
   persistedKeys Abilities shadowedActor = Inr [''A'', ''-=A''] \<and>
   updateObject expandObject shadowedActor climbingSubmission =
     Inr \<lparr>proto = ObjectPrototype, own =
       [(''_id'', JStr ''a3''),
        (''data.skills'', JPlain [(''Climbing'', JPlain [(''name'', JStr ''Climbing''), (''stat'', JStr ''Speed'')])]),
        (''data.equipment.weapons'', JPlain []),
        (''data.abilities'', JPlain [(''-=A'', JNull)])]\<rparr> \<and>
   map_of [(''-=A'', JNull)] (''-='' @ ''-=A'') = None"
  by code_simp

end
